theory Spec2Isabelle
  imports Complex_Main "HOL-Library.Sublist"
begin

section \<open>Kanoon Sathi: the retrieval-augmented query pipeline\<close>

text \<open>
  A shallow embedding of the TypeScript sources: the classifier and grammar pass
  of \<^verbatim>\<open>utils/ai.ts\<close>, the four retrievers of \<^verbatim>\<open>tools/retriever.ts\<close>, the
  chat store of \<^verbatim>\<open>services/chatService.ts\<close> and the flows of \<^verbatim>\<open>index.ts\<close>.
  Hosted services (the generative model, the embedding search) are parameters
  of the model: an environment of functions that either throw or answer.
\<close>

subsection \<open>JavaScript strings\<close>

text \<open>
  A \<^typ>\<open>string\<close> stands for a JavaScript string whose code units lie in
  U+0000..U+00FF; on that range \<^verbatim>\<open>toLowerCase\<close>, \<^verbatim>\<open>trim\<close> and \<^verbatim>\<open>includes\<close>
  are written out as ECMAScript defines them.
\<close>

definition toLowerChar :: "char \<Rightarrow> char" where
  "toLowerChar c =
     (let n = (of_char c :: nat) in
      if 65 \<le> n \<and> n \<le> 90 then char_of (n + 32)
      else if 192 \<le> n \<and> n \<le> 222 \<and> n \<noteq> 215 then char_of (n + 32)
      else c)"

definition toLowerCase :: "string \<Rightarrow> string" where
  "toLowerCase s = map toLowerChar s"

definition isWhiteSpace :: "char \<Rightarrow> bool" where
  "isWhiteSpace c = ((of_char c :: nat) \<in> {9, 10, 11, 12, 13, 32, 160})"

definition js_trim :: "string \<Rightarrow> string" where
  "js_trim s = dropWhile isWhiteSpace (rev (dropWhile isWhiteSpace (rev s)))"

fun js_includes :: "string \<Rightarrow> string \<Rightarrow> bool" where
  "js_includes [] t = (t = [])"
| "js_includes (c # s) t = (take (length t) (c # s) = t \<or> js_includes s t)"

text \<open>\<^verbatim>\<open>parts.join(" ")\<close>\<close>

fun js_join :: "string list \<Rightarrow> string" where
  "js_join [] = []"
| "js_join [p] = p"
| "js_join (p # q # ps) = p @ '' '' @ js_join (q # ps)"

text \<open>Truthiness of an optional string: \<^verbatim>\<open>undefined\<close> and \<^verbatim>\<open>""\<close> are falsy.\<close>

fun truthy :: "string option \<Rightarrow> bool" where
  "truthy None = False"
| "truthy (Some s) = (s \<noteq> [])"

text \<open>\<^verbatim>\<open>x || d\<close> on an optional string.\<close>

fun or_else :: "string option \<Rightarrow> string \<Rightarrow> string" where
  "or_else None d = d"
| "or_else (Some s) d = (if s = [] then d else s)"

subsection \<open>Errors and hosted services\<close>

datatype error = Thrown string

datatype role = User | Model | System

text \<open>
  The values a metadata object holds: JSON primitives and nested objects.
  Numbers are reals (no NaN); arrays are left out.
\<close>

datatype jsval = JNum real | JStr string | JBool bool | JNull | JObj "string \<Rightarrow> jsval option"

text \<open>
  \<^verbatim>\<open>x === v\<close>, where \<open>x\<close> is read from a document (\<open>None\<close> is
  \<^verbatim>\<open>undefined\<close>) and \<open>v\<close> comes with the request: primitives are compared by
  value, and an object is never identical to one built elsewhere.
\<close>

fun strict_equal :: "jsval option \<Rightarrow> jsval \<Rightarrow> bool" where
  "strict_equal (Some (JNum x)) (JNum y) = (x = y)"
| "strict_equal (Some (JStr x)) (JStr y) = (x = y)"
| "strict_equal (Some (JBool x)) (JBool y) = (x = y)"
| "strict_equal (Some JNull) JNull = True"
| "strict_equal x v = False"

text \<open>
  \<^verbatim>\<open>x >= t\<close> for a number \<open>t\<close>: \<^verbatim>\<open>undefined\<close> and objects become NaN and
  fail, \<^verbatim>\<open>null\<close> counts as 0, \<^verbatim>\<open>true\<close> as 1. (A string would be parsed as
  a number; no document below holds one where the comparison reads.)
\<close>

fun at_least :: "jsval option \<Rightarrow> real \<Rightarrow> bool" where
  "at_least (Some (JNum x)) t = (t \<le> x)"
| "at_least (Some JNull) t = (t \<le> 0)"
| "at_least (Some (JBool b)) t = (t \<le> (if b then 1 else 0))"
| "at_least x t = False"

text \<open>
  A row as the similarity search returns it (\<^verbatim>\<open>res.rows\<close>). The score is
  \<^verbatim>\<open>1 - (embedding <=> $1)\<close>, one minus the cosine distance; the data model
  of the specification takes it to lie between 0 and 1. The \<^verbatim>\<open>documents\<close>
  table has no page column; its retriever does not read \<open>page_number\<close>.
\<close>

record row =
  content :: string
  row_metadata :: "string \<rightharpoonup> jsval"
  page_number :: int
  similarity_score :: real

text \<open>A Genkit \<^verbatim>\<open>Document\<close>: its text and its metadata object.\<close>

record document =
  doc_text :: string
  metadata :: "string \<rightharpoonup> jsval"

text \<open>
  Genkit's \<^verbatim>\<open>Document.fromText(text, metadata)\<close>: the second argument is the
  metadata object itself.
\<close>

definition fromText :: "string \<Rightarrow> (string \<rightharpoonup> jsval) \<Rightarrow> document" where
  "fromText t md = \<lparr>doc_text = t, metadata = md\<rparr>"

record ChatMessagePart =
  part_text :: string

record ChatInterface =
  msg_role :: role
  msg_content :: "ChatMessagePart list"

datatype retriever =
    vectorDbRetriever | criminalCodeRetriever | civilCodeRetriever | criminalProcedureRetriever

record generate_request =
  gr_system :: string
  gr_prompt :: string
  gr_docs :: "document list"
  gr_messages :: "ChatInterface list"

text \<open>
  What \<^verbatim>\<open>ai.generate\<close> answers: \<^verbatim>\<open>response.text\<close> (possibly absent) and
  \<^verbatim>\<open>response.message?.content\<close> (absent when there is no message).
\<close>

record generate_response =
  response_text :: "string option"
  response_message_content :: "string list option"

text \<open>
  The hosted collaborators. \<open>Inl\<close> is a thrown error. The three uses of
  \<^verbatim>\<open>ai.generate\<close> (grammar pass, classifier, answer) are distinct fields, and
  \<open>search\<close> is the embedding plus nearest-neighbour query of one corpus table.
  \<open>new_chat_id\<close> is the identifier \<^verbatim>\<open>gen_random_uuid()\<close> gives a chat created
  during the request, and \<open>systemPrompt\<close> the fixed instruction text of
  \<^verbatim>\<open>index.ts\<close>, whose wording plays no role here.
\<close>

record env =
  grammar_model :: "string \<Rightarrow> error + string option"
  classifier_model :: "string \<Rightarrow> error + string option"
  search :: "retriever \<Rightarrow> string \<Rightarrow> nat \<Rightarrow> error + row list"
  generate_model :: "generate_request \<Rightarrow> error + generate_response"
  new_chat_id :: string
  systemPrompt :: string

subsection \<open>utils/ai.ts\<close>

text \<open>Lines 47-61 of \<^verbatim>\<open>detectDocumentType\<close>: from \<^verbatim>\<open>response.text\<close> to the tag.\<close>

definition documentTypeOf :: "string option \<Rightarrow> string" where
  "documentTypeOf text =
     (let documentType = or_else (map_option (\<lambda>t. js_trim (toLowerCase t)) text) ''constitution'' in
      if js_includes documentType ''criminal'' \<and> js_includes documentType ''procedure''
        then ''criminal_procedure''
      else if js_includes documentType ''criminal'' then ''criminal''
      else if js_includes documentType ''civil'' then ''civil''
      else if js_includes documentType ''constitution'' then ''constitution''
      else ''none'')"

definition detectDocumentType :: "env \<Rightarrow> string \<Rightarrow> error + string" where
  "detectDocumentType e query =
     (case classifier_model e query of
        Inl err \<Rightarrow> Inl err
      | Inr text \<Rightarrow> Inr (documentTypeOf text))"

definition correctGrammar :: "env \<Rightarrow> string \<Rightarrow> error + string" where
  "correctGrammar e text =
     (case grammar_model e text of
        Inl err \<Rightarrow> Inl err
      | Inr t \<Rightarrow> Inr (or_else t text))"

subsection \<open>tools/retriever.ts\<close>

record retriever_options =
  k :: "nat option"
  similarityThreshold :: "real option"
  metadataFilter :: "(string \<times> jsval) list option"
  pageFilter :: "real option"

text \<open>\<^verbatim>\<open>options?.k || 5\<close>: an absent or zero count becomes 5.\<close>

definition limit_of :: "retriever_options \<Rightarrow> nat" where
  "limit_of options = (case k options of None \<Rightarrow> 5 | Some n \<Rightarrow> if n = 0 then 5 else n)"

text \<open>
  \<^verbatim>\<open>Document.fromText(row.content, {metadata: {...row.metadata, similarityScore}})\<close>
  of the constitution retriever. The object handed over as metadata has the one
  key \<^verbatim>\<open>metadata\<close>, so the row's keys and the score sit one level down, at
  \<^verbatim>\<open>doc.metadata.metadata\<close>.
\<close>

definition vectorDb_document :: "row \<Rightarrow> document" where
  "vectorDb_document r =
     fromText (content r)
       [''metadata'' \<mapsto>
          JObj ((row_metadata r)(''similarityScore'' \<mapsto> JNum (similarity_score r)))]"

text \<open>The same for the three code tables, which also carry a page number.\<close>

definition code_document :: "row \<Rightarrow> document" where
  "code_document r =
     fromText (content r)
       [''metadata'' \<mapsto>
          JObj ((row_metadata r)(''pageNumber'' \<mapsto> JNum (of_int (page_number r)),
                                 ''similarityScore'' \<mapsto> JNum (similarity_score r)))]"

text \<open>
  What a passage carries, where the handlers put it: the object at
  \<^verbatim>\<open>doc.metadata.metadata\<close> and the similarity score in it.
\<close>

definition passage_metadata :: "document \<Rightarrow> string \<rightharpoonup> jsval" where
  "passage_metadata doc key =
     (case metadata doc ''metadata'' of Some (JObj m) \<Rightarrow> m key | _ \<Rightarrow> None)"

definition passage_score :: "document \<Rightarrow> real option" where
  "passage_score doc =
     (case passage_metadata doc ''similarityScore'' of Some (JNum x) \<Rightarrow> Some x | _ \<Rightarrow> None)"

text \<open>\<^verbatim>\<open>doc.metadata?.similarityScore >= (options.similarityThreshold ?? 0)\<close>\<close>

definition score_at_least :: "real \<Rightarrow> document \<Rightarrow> bool" where
  "score_at_least t doc = at_least (metadata doc ''similarityScore'') t"

text \<open>
  \<^verbatim>\<open>if (options.similarityThreshold) filteredDocs = documents.filter(...)\<close>: the guard
  is a truthiness test, so a threshold of 0 is treated like an absent one.
\<close>

definition threshold_stage :: "retriever_options \<Rightarrow> document list \<Rightarrow> document list" where
  "threshold_stage options documents =
     (case similarityThreshold options of
        None \<Rightarrow> documents
      | Some t \<Rightarrow> if t \<noteq> 0 then filter (score_at_least t) documents else documents)"

text \<open>\<^verbatim>\<open>Object.entries(filter).every(([key, value]) => doc.metadata?.[key] === value)\<close>\<close>

definition matches_metadata :: "(string \<times> jsval) list \<Rightarrow> document \<Rightarrow> bool" where
  "matches_metadata entries doc =
     list_all (\<lambda>(key, v). strict_equal (metadata doc key) v) entries"

definition metadata_stage :: "retriever_options \<Rightarrow> document list \<Rightarrow> document list" where
  "metadata_stage options docs =
     (case metadataFilter options of
        None \<Rightarrow> docs
      | Some entries \<Rightarrow> filter (matches_metadata entries) docs)"

text \<open>\<^verbatim>\<open>if (options?.pageFilter) ... doc.metadata?.pageNumber === options.pageFilter\<close>\<close>

definition page_stage :: "retriever_options \<Rightarrow> document list \<Rightarrow> document list" where
  "page_stage options docs =
     (case pageFilter options of
        None \<Rightarrow> docs
      | Some p \<Rightarrow>
          if p \<noteq> 0
          then filter (\<lambda>doc. strict_equal (metadata doc ''pageNumber'') (JNum p)) docs
          else docs)"

text \<open>The handler of \<^verbatim>\<open>custom/vectorDbRetriever\<close> (lines 28-62).\<close>

definition vectorDb_handler :: "env \<Rightarrow> string \<Rightarrow> retriever_options \<Rightarrow> error + document list" where
  "vectorDb_handler e query options =
     (case search e vectorDbRetriever query (limit_of options) of
        Inl err \<Rightarrow> Inl err
      | Inr results \<Rightarrow>
          (let documents = map vectorDb_document results;
               filteredDocs = threshold_stage options documents
           in Inr (metadata_stage options filteredDocs)))"

text \<open>
  The handlers of the criminal code, civil code and criminal procedure
  retrievers (lines 99-132, 170-203, 241-274): one text, three tables.
\<close>

definition code_handler ::
  "retriever \<Rightarrow> env \<Rightarrow> string \<Rightarrow> retriever_options \<Rightarrow> error + document list" where
  "code_handler r e query options =
     (case search e r query (limit_of options) of
        Inl err \<Rightarrow> Inl err
      | Inr results \<Rightarrow>
          (let documents = map code_document results;
               filteredDocs = threshold_stage options documents
           in Inr (page_stage options filteredDocs)))"

text \<open>
  The \<^verbatim>\<open>configSchema\<close> every retriever is defined with: of the fields modelled
  here it constrains \<^verbatim>\<open>similarityThreshold\<close>, by \<^verbatim>\<open>z.number().min(0).max(1)\<close>.
\<close>

definition valid_options :: "retriever_options \<Rightarrow> bool" where
  "valid_options options =
     (case similarityThreshold options of None \<Rightarrow> True | Some t \<Rightarrow> 0 \<le> t \<and> t \<le> 1)"

fun handler :: "retriever \<Rightarrow> env \<Rightarrow> string \<Rightarrow> retriever_options \<Rightarrow> error + document list" where
  "handler vectorDbRetriever e query options = vectorDb_handler e query options"
| "handler r e query options = code_handler r e query options"

text \<open>
  \<^verbatim>\<open>ai.retrieve({retriever, query, options})\<close>: Genkit checks the options against
  the retriever's schema and throws a validation error before the handler runs.
\<close>

definition ai_retrieve :: "env \<Rightarrow> retriever \<Rightarrow> string \<Rightarrow> retriever_options \<Rightarrow> error + document list" where
  "ai_retrieve e r query options =
     (if valid_options options then handler r e query options
      else Inl (Thrown ''ValidationError''))"

text \<open>The rows a retriever's search returned, as documents, before any filter.\<close>

fun unfiltered :: "retriever \<Rightarrow> row list \<Rightarrow> document list" where
  "unfiltered vectorDbRetriever results = map vectorDb_document results"
| "unfiltered r results = map code_document results"

text \<open>What a retriever answers once its search has answered: the filters it applies.\<close>

fun filtered :: "retriever \<Rightarrow> retriever_options \<Rightarrow> document list \<Rightarrow> document list" where
  "filtered vectorDbRetriever options docs = metadata_stage options (threshold_stage options docs)"
| "filtered r options docs = page_stage options (threshold_stage options docs)"

subsection \<open>services/chatService.ts\<close>

record chat =
  chat_id :: string
  chat_user_id :: string
  chat_title :: "string option"

record message =
  message_chat_id :: string
  sender :: role
  message_content :: string

text \<open>
  The two tables, and whether the connection answers: every
  \<^verbatim>\<open>Database.query\<close> throws while \<open>online\<close> is false. The transaction of
  \<^verbatim>\<open>addMessage\<close> either commits the row or rolls back and throws, so the call
  is one step here.
\<close>

record database =
  chats :: "chat list"
  messages :: "message list"
  online :: bool

definition getChatById :: "database \<Rightarrow> string \<Rightarrow> string \<Rightarrow> error + chat option" where
  "getChatById d chatId uid =
     (if \<not> online d then Inl (Thrown ''Database query error'')
      else Inr (find (\<lambda>c. chat_id c = chatId \<and> chat_user_id c = uid) (chats d)))"

definition createChat :: "env \<Rightarrow> database \<Rightarrow> string \<Rightarrow> string \<Rightarrow> error + chat \<times> database" where
  "createChat e d uid title =
     (if \<not> online d then Inl (Thrown ''Database query error'')
      else (let c = \<lparr>chat_id = new_chat_id e, chat_user_id = uid,
                      chat_title = (if title = [] then None else Some title)\<rparr>
            in Inr (c, d\<lparr>chats := chats d @ [c]\<rparr>)))"

definition addMessage :: "database \<Rightarrow> string \<Rightarrow> string \<Rightarrow> string \<Rightarrow> role \<Rightarrow> error + database" where
  "addMessage d chatId uid text who =
     (case getChatById d chatId uid of
        Inl err \<Rightarrow> Inl err
      | Inr None \<Rightarrow> Inl (Thrown ''Chat not found or access denied'')
      | Inr (Some c) \<Rightarrow>
          Inr (d\<lparr>messages := messages d @
                  [\<lparr>message_chat_id = chatId, sender = who, message_content = text\<rparr>]\<rparr>))"

subsection \<open>index.ts: the flows\<close>

record state =
  CHAT_HISTORY :: "string \<rightharpoonup> ChatInterface list"
  db :: database

text \<open>
  The flow's input \<^verbatim>\<open>{text, chatroomId, userId?}\<close>; the field \<^verbatim>\<open>text\<close> is
  \<open>in_text\<close> here.
\<close>

record input =
  in_text :: string
  chatroomId :: string
  userId :: "string option"

text \<open>The calls a run makes to the hosted services, in order.\<close>

datatype event =
    GrammarCall string
  | ClassifyCall string
  | RetrieveCall retriever string retriever_options
  | GenerateCall generate_request

record run =
  result :: "error + string"
  final :: state
  calls :: "event list"

definition getDocumentRetriever :: "env \<Rightarrow> string \<Rightarrow> error + retriever option" where
  "getDocumentRetriever e query =
     (case detectDocumentType e query of
        Inl err \<Rightarrow> Inl err
      | Inr documentType \<Rightarrow>
          Inr (if documentType = ''criminal'' then Some criminalCodeRetriever
               else if documentType = ''civil'' then Some civilCodeRetriever
               else if documentType = ''criminal_procedure'' then Some criminalProcedureRetriever
               else if documentType = ''constitution'' then Some vectorDbRetriever
               else None))"

text \<open>\<^verbatim>\<open>CHAT_HISTORY.get(id) || []\<close>\<close>

definition history_of :: "state \<Rightarrow> string \<Rightarrow> ChatInterface list" where
  "history_of st cid = (case CHAT_HISTORY st cid of None \<Rightarrow> [] | Some h \<Rightarrow> h)"

definition turn :: "role \<Rightarrow> string \<Rightarrow> ChatInterface" where
  "turn r t = \<lparr>msg_role = r, msg_content = [\<lparr>part_text = t\<rparr>]\<rparr>"

definition append_turn :: "state \<Rightarrow> string \<Rightarrow> ChatInterface \<Rightarrow> state" where
  "append_turn st cid m = st\<lparr>CHAT_HISTORY := (CHAT_HISTORY st)(cid \<mapsto> history_of st cid @ [m])\<rparr>"

text \<open>\<^verbatim>\<open>input.userId && input.chatroomId\<close>\<close>

definition authenticated :: "input \<Rightarrow> bool" where
  "authenticated inp = (truthy (userId inp) \<and> chatroomId inp \<noteq> [])"

text \<open>
  Lines 154-179: the user turn. For an authenticated request the three chat
  store calls sit in one \<^verbatim>\<open>try\<close> whose \<^verbatim>\<open>catch\<close> only logs; otherwise the
  turn is appended to the in-memory table.
\<close>

definition save_user_message :: "env \<Rightarrow> input \<Rightarrow> string \<Rightarrow> string \<Rightarrow> database \<Rightarrow> database" where
  "save_user_message e inp prompt refinedPrompt d =
     (let uid = the (userId inp) in
      case getChatById d (chatroomId inp) uid of
        Inl err \<Rightarrow> d
      | Inr (Some c) \<Rightarrow>
          (case addMessage d (chatroomId inp) uid prompt User of Inl err \<Rightarrow> d | Inr d' \<Rightarrow> d')
      | Inr None \<Rightarrow>
          (case createChat e d uid (take 50 refinedPrompt @ ''...'') of
             Inl err \<Rightarrow> d
           | Inr (c, d1) \<Rightarrow>
               (case addMessage d1 (chatroomId inp) uid prompt User of
                  Inl err \<Rightarrow> d1
                | Inr d2 \<Rightarrow> d2)))"

definition record_user_turn :: "env \<Rightarrow> input \<Rightarrow> string \<Rightarrow> string \<Rightarrow> state \<Rightarrow> state" where
  "record_user_turn e inp prompt refinedPrompt st =
     (if authenticated inp then st\<lparr>db := save_user_message e inp prompt refinedPrompt (db st)\<rparr>
      else append_turn st (chatroomId inp) (turn User prompt))"

text \<open>The row \<^verbatim>\<open>addMessage(chatroomId, userId, {content: prompt, sender: "user"})\<close> inserts.\<close>

definition user_message :: "input \<Rightarrow> message" where
  "user_message inp =
     \<lparr>message_chat_id = chatroomId inp, sender = User, message_content = in_text inp\<rparr>"

text \<open>Lines 190-206: the model turn.\<close>

definition record_model_turn :: "input \<Rightarrow> generate_response \<Rightarrow> state \<Rightarrow> state" where
  "record_model_turn inp response st =
     (if authenticated inp \<and> truthy (response_text response) then
        st\<lparr>db := (case addMessage (db st) (chatroomId inp) (the (userId inp))
                           (the (response_text response)) Model of
                     Inl err \<Rightarrow> db st
                   | Inr d' \<Rightarrow> d')\<rparr>
      else append_turn st (chatroomId inp) (turn Model (or_else (response_text response) [])))"

text \<open>Lines 181-188: the request sent to the model.\<close>

definition generation_request :: "env \<Rightarrow> input \<Rightarrow> string \<Rightarrow> document list \<Rightarrow> state \<Rightarrow> generate_request" where
  "generation_request e inp refinedPrompt docs st =
     \<lparr>gr_system = systemPrompt e, gr_prompt = refinedPrompt, gr_docs = docs,
      gr_messages = (if truthy (userId inp) then [] else history_of st (chatroomId inp))\<rparr>"

definition flow_options :: retriever_options where
  "flow_options = \<lparr>k = Some 3, similarityThreshold = None, metadataFilter = None, pageFilter = None\<rparr>"

text \<open>
  Every call to a hosted service goes through a function that answers with the
  call's result together with the event of the call, so that the trace of a run
  lists what the run called, with the arguments it passed.
\<close>

definition call_grammar :: "env \<Rightarrow> string \<Rightarrow> (error + string) \<times> event list" where
  "call_grammar e t = (correctGrammar e t, [GrammarCall t])"

definition call_classifier :: "env \<Rightarrow> string \<Rightarrow> (error + retriever option) \<times> event list" where
  "call_classifier e query = (getDocumentRetriever e query, [ClassifyCall query])"

text \<open>
  Lines 142-152: \<^verbatim>\<open>let docs = []; if (selectedRetriever) docs = await ai.retrieve(...)\<close>.
\<close>

definition call_retriever ::
  "env \<Rightarrow> retriever option \<Rightarrow> string \<Rightarrow> (error + document list) \<times> event list" where
  "call_retriever e selectedRetriever query =
     (case selectedRetriever of
        None \<Rightarrow> (Inr [], [])
      | Some r \<Rightarrow> (ai_retrieve e r query flow_options, [RetrieveCall r query flow_options]))"

definition call_generate :: "env \<Rightarrow> generate_request \<Rightarrow> (error + generate_response) \<times> event list" where
  "call_generate e request = (generate_model e request, [GenerateCall request])"

text \<open>The two components of \<open>call_retriever\<close>.\<close>

definition retrieve_selected :: "env \<Rightarrow> retriever option \<Rightarrow> string \<Rightarrow> error + document list" where
  "retrieve_selected e selectedRetriever query = fst (call_retriever e selectedRetriever query)"

definition retrieve_calls :: "env \<Rightarrow> retriever option \<Rightarrow> string \<Rightarrow> event list" where
  "retrieve_calls e selectedRetriever query = snd (call_retriever e selectedRetriever query)"

text \<open>
  \<^verbatim>\<open>autonomousAIFlow\<close>, the flow with the optional user identifier (lines
  130-209). A thrown error leaves the state as the statements before it made it.
\<close>

definition autonomousAIFlow :: "env \<Rightarrow> input \<Rightarrow> state \<Rightarrow> run" where
  "autonomousAIFlow e inp st =
     (let prompt = in_text inp in
      case call_grammar e prompt of
        (Inl err, c1) \<Rightarrow> \<lparr>result = Inl err, final = st, calls = c1\<rparr>
      | (Inr refinedPrompt, c1) \<Rightarrow>
     (case call_classifier e refinedPrompt of
        (Inl err, c2) \<Rightarrow> \<lparr>result = Inl err, final = st, calls = c1 @ c2\<rparr>
      | (Inr selectedRetriever, c2) \<Rightarrow>
     (case call_retriever e selectedRetriever refinedPrompt of
        (Inl err, c3) \<Rightarrow> \<lparr>result = Inl err, final = st, calls = c1 @ c2 @ c3\<rparr>
      | (Inr docs, c3) \<Rightarrow>
     (let st1 = record_user_turn e inp prompt refinedPrompt st in
      case call_generate e (generation_request e inp refinedPrompt docs st1) of
        (Inl err, c4) \<Rightarrow> \<lparr>result = Inl err, final = st1, calls = c1 @ c2 @ c3 @ c4\<rparr>
      | (Inr response, c4) \<Rightarrow>
          \<lparr>result = Inr (or_else (response_text response) ''No response generated.''),
           final = record_model_turn inp response st1,
           calls = c1 @ c2 @ c3 @ c4\<rparr>))))"

text \<open>\<^verbatim>\<open>getChatHistory\<close> (lines 213-228).\<close>

definition getChatHistory :: "state \<Rightarrow> string \<Rightarrow> (role \<times> string) list" where
  "getChatHistory st cid =
     map (\<lambda>msg. (msg_role msg, js_join (map part_text (msg_content msg)))) (history_of st cid)"

text \<open>
  The first flow of \<^verbatim>\<open>src/index.ts\<close> (lines 41-69): constitution corpus only,
  no history, and the answer is \<^verbatim>\<open>response.message?.content || "No response generated."\<close>,
  so it is either the array of content parts or the fallback string.
\<close>

datatype flow_output = Text string | Parts "string list"

definition first_flow_options :: retriever_options where
  "first_flow_options = \<lparr>k = Some 2, similarityThreshold = None, metadataFilter = None, pageFilter = None\<rparr>"

definition autonomousAIFlow_first :: "env \<Rightarrow> string \<Rightarrow> error + flow_output" where
  "autonomousAIFlow_first e prompt =
     (case ai_retrieve e vectorDbRetriever prompt first_flow_options of
        Inl err \<Rightarrow> Inl err
      | Inr docs \<Rightarrow>
          (case generate_model e \<lparr>gr_system = systemPrompt e, gr_prompt = prompt,
                                   gr_docs = docs, gr_messages = []\<rparr> of
             Inl err \<Rightarrow> Inl err
           | Inr response \<Rightarrow>
               Inr (case response_message_content response of
                      None \<Rightarrow> Text ''No response generated.''
                    | Some parts \<Rightarrow> Parts parts)))"

subsection \<open>Concrete requests\<close>

text \<open>Small environments and states on which the flows are run below.\<close>

definition example_row :: "real \<Rightarrow> row" where
  "example_row sc =
     \<lparr>content = ''Every person shall have the right to live with dignity.'',
      row_metadata = [''article'' \<mapsto> JNum 16],
      page_number = 12,
      similarity_score = sc\<rparr>"

definition example_env ::
  "(error + string option) \<Rightarrow> (error + string option) \<Rightarrow> row list \<Rightarrow>
   (error + generate_response) \<Rightarrow> env" where
  "example_env g c rows r =
     \<lparr>grammar_model = (\<lambda>t. g),
      classifier_model = (\<lambda>q. c),
      search = (\<lambda>r q n. Inr (take n rows)),
      generate_model = (\<lambda>req. r),
      new_chat_id = ''chat-2'',
      systemPrompt = ''You are Kanoon Sathi''\<rparr>"

definition empty_state :: state where
  "empty_state = \<lparr>CHAT_HISTORY = Map.empty, db = \<lparr>chats = [], messages = [], online = True\<rparr>\<rparr>"

definition guest_input :: input where
  "guest_input = \<lparr>in_text = ''wat is theft'', chatroomId = ''c1'', userId = None\<rparr>"

definition answer :: "string \<Rightarrow> generate_response" where
  "answer t = \<lparr>response_text = Some t, response_message_content = Some [t]\<rparr>"

definition article_row :: "real \<Rightarrow> real \<Rightarrow> row" where
  "article_row a sc = (example_row sc)\<lparr>row_metadata := [''article'' \<mapsto> JNum a]\<rparr>"

definition scenario_rows :: "row list" where
  "scenario_rows = [example_row 0.91, example_row 0.77, example_row 0.40]"

definition scenario_env :: "row list \<Rightarrow> env" where
  "scenario_env rows = example_env (Inr None) (Inr None) rows (Inr (answer ''ok''))"

definition no_options :: retriever_options where
  "no_options = \<lparr>k = None, similarityThreshold = None, metadataFilter = None, pageFilter = None\<rparr>"

definition member_input :: input where
  "member_input = \<lparr>in_text = ''wat is theft'', chatroomId = ''c1'', userId = Some ''u1''\<rparr>"

definition member_state :: state where
  "member_state =
     \<lparr>CHAT_HISTORY = Map.empty,
      db = \<lparr>chats = [\<lparr>chat_id = ''c1'', chat_user_id = ''u1'', chat_title = None\<rparr>],
            messages = [], online = True\<rparr>\<rparr>"

text \<open>
  An environment whose services answer by what they are asked: the grammar pass
  corrects the one input, and classifier, search and model answer for the
  corrected text only.
\<close>

definition correcting_env :: env where
  "correcting_env =
     \<lparr>grammar_model =
        (\<lambda>t. if t = ''wat is theft'' then Inr (Some ''What is theft?'') else Inr None),
      classifier_model =
        (\<lambda>q. if q = ''What is theft?'' then Inr (Some ''criminal'') else Inr (Some ''none'')),
      search =
        (\<lambda>r q n. if q = ''What is theft?'' then Inr (take n [example_row 0.91]) else Inr []),
      generate_model =
        (\<lambda>req. if gr_prompt req = ''What is theft?'' then Inr (answer ''Theft is an offence.'')
               else Inl (Thrown ''unexpected prompt'')),
      new_chat_id = ''chat-2'',
      systemPrompt = ''You are Kanoon Sathi''\<rparr>"

subsection \<open>Facts about the string functions\<close>

lemma js_includes_iff: "js_includes s t \<longleftrightarrow> (\<exists>u v. s = u @ t @ v)"
proof (induction s)
  case Nil
  then show ?case by auto
next
  case (Cons c s)
  show ?case
  proof
    assume "js_includes (c # s) t"
    then consider "take (length t) (c # s) = t" | "js_includes s t" by auto
    then show "\<exists>u v. c # s = u @ t @ v"
    proof cases
      case 1
      then have "c # s = [] @ t @ drop (length t) (c # s)"
        by (metis append_Nil append_take_drop_id)
      then show ?thesis by blast
    next
      case 2
      then obtain u v where "s = u @ t @ v" using Cons.IH by blast
      then have "c # s = (c # u) @ t @ v" by simp
      then show ?thesis by blast
    qed
  next
    assume "\<exists>u v. c # s = u @ t @ v"
    then obtain u v where uv: "c # s = u @ t @ v" by blast
    show "js_includes (c # s) t"
    proof (cases u)
      case Nil
      with uv have "take (length t) (c # s) = t" by simp
      then show ?thesis by simp
    next
      case (Cons a u')
      with uv have "s = u' @ t @ v" by simp
      then have "js_includes s t" using Cons.IH by blast
      then show ?thesis by simp
    qed
  qed
qed

lemma isWhiteSpace_criminal: "\<not> isWhiteSpace (CHR ''c'')" "\<not> isWhiteSpace (CHR ''l'')"
  "\<not> isWhiteSpace (CHR ''p'')" "\<not> isWhiteSpace (CHR ''e'')"
  by (simp_all add: isWhiteSpace_def)

lemma trim_keeps:
  assumes "s = u @ t @ v" "t \<noteq> []" "\<not> isWhiteSpace (hd t)" "\<not> isWhiteSpace (last t)"
  shows "\<exists>u' v'. js_trim s = u' @ t @ v'"
proof -
  have ht: "hd t \<in> set t" "last t \<in> set t" using assms(2) by auto
  have "rev s = rev v @ rev t @ rev u" using assms(1) by simp
  have 1: "\<exists>v'. dropWhile isWhiteSpace (rev s) = v' @ rev t @ rev u"
  proof (cases "\<forall>x\<in>set (rev v). isWhiteSpace x")
    case True
    have "dropWhile isWhiteSpace (rev t @ rev u) = dropWhile isWhiteSpace (rev t) @ rev u"
      using ht(2) assms(4) by (intro dropWhile_append1[of "last t"]) auto
    moreover have "dropWhile isWhiteSpace (rev t) = rev t"
      using assms(2,4) by (cases t rule: rev_cases) auto
    ultimately show ?thesis using True \<open>rev s = _\<close> by (auto simp: dropWhile_append)
  next
    case False
    then show ?thesis using \<open>rev s = _\<close> by (auto simp: dropWhile_append)
  qed
  then obtain v' where v': "dropWhile isWhiteSpace (rev s) = v' @ rev t @ rev u" by blast
  then have r: "rev (dropWhile isWhiteSpace (rev s)) = u @ t @ rev v'" by simp
  have "\<exists>u'. dropWhile isWhiteSpace (u @ t @ rev v') = u' @ t @ rev v'"
  proof (cases "\<forall>x\<in>set u. isWhiteSpace x")
    case True
    have "dropWhile isWhiteSpace (t @ rev v') = t @ rev v'"
      using assms(2,3) by (cases t) auto
    then show ?thesis using True by (auto simp: dropWhile_append)
  next
    case False
    then show ?thesis by (auto simp: dropWhile_append)
  qed
  then show ?thesis unfolding js_trim_def r by blast
qed

lemma trim_includes:
  assumes "js_includes s t" "t \<noteq> []" "\<not> isWhiteSpace (hd t)" "\<not> isWhiteSpace (last t)"
  shows "js_includes (js_trim s) t"
  using assms trim_keeps unfolding js_includes_iff by blast

lemma trim_is_part: "\<exists>u v. s = u @ js_trim s @ v"
proof -
  let ?W = isWhiteSpace
  let ?a = "rev (dropWhile ?W (rev s))"
  have s: "s = ?a @ rev (takeWhile ?W (rev s))"
    by (metis rev_append rev_rev_ident takeWhile_dropWhile_id)
  have "?a = takeWhile ?W ?a @ js_trim s" by (simp add: js_trim_def)
  with s have "s = takeWhile ?W ?a @ js_trim s @ rev (takeWhile ?W (rev s))"
    by (metis append.assoc)
  then show ?thesis by blast
qed

lemma includes_trim_imp: "js_includes (js_trim s) t \<Longrightarrow> js_includes s t"
proof -
  assume "js_includes (js_trim s) t"
  then obtain u v where 1: "js_trim s = u @ t @ v" unfolding js_includes_iff by blast
  obtain a b where "s = a @ js_trim s @ b" using trim_is_part by blast
  with 1 have "s = (a @ u) @ t @ (v @ b)" by simp
  then show ?thesis unfolding js_includes_iff by blast
qed

lemma toLowerCase_append: "toLowerCase (a @ b) = toLowerCase a @ toLowerCase b"
  by (simp add: toLowerCase_def)

lemma includes_lower:
  assumes "text = u @ w @ v" "toLowerCase w = t"
  shows "js_includes (toLowerCase text) t"
  unfolding js_includes_iff using assms by (auto simp: toLowerCase_append)

lemma documentTypeOf_procedure:
  assumes "js_includes (toLowerCase text) ''criminal''" "js_includes (toLowerCase text) ''procedure''"
  shows "documentTypeOf (Some text) = ''criminal_procedure''"
proof -
  let ?d = "js_trim (toLowerCase text)"
  have c: "js_includes ?d ''criminal''"
    using assms(1) by (intro trim_includes) (simp_all add: isWhiteSpace_criminal)
  have p: "js_includes ?d ''procedure''"
    using assms(2) by (intro trim_includes) (simp_all add: isWhiteSpace_criminal)
  have "?d \<noteq> []" using c by (cases ?d) auto
  then show ?thesis using c p by (simp add: documentTypeOf_def)
qed

lemma documentTypeOf_none:
  assumes "js_trim (toLowerCase text) \<noteq> []"
    and "\<not> js_includes (toLowerCase text) ''criminal''"
    and "\<not> js_includes (toLowerCase text) ''civil''"
    and "\<not> js_includes (toLowerCase text) ''constitution''"
  shows "documentTypeOf (Some text) = ''none''"
  using assms includes_trim_imp by (auto simp: documentTypeOf_def Let_def)

lemma documentTypeOf_empty:
  "documentTypeOf None = ''constitution''" "documentTypeOf (Some []) = ''constitution''"
  by (simp_all add: documentTypeOf_def js_trim_def toLowerCase_def)

subsection \<open>Classification\<close>

text \<open>
  C7. A classifier response whose text contains "criminal" and "procedure", in
  any letter case, resolves to the criminal procedure tag and never to the plain
  criminal tag.
\<close>

theorem procedure_before_criminal:
  assumes "classifier_model e q = Inr (Some text)"
    and "text = u1 @ w1 @ v1" and "toLowerCase w1 = ''criminal''"
    and "text = u2 @ w2 @ v2" and "toLowerCase w2 = ''procedure''"
  shows "detectDocumentType e q = Inr ''criminal_procedure''
         \<and> detectDocumentType e q \<noteq> Inr ''criminal''"
proof -
  have "js_includes (toLowerCase text) ''criminal''"
    using assms(2,3) by (rule includes_lower)
  moreover have "js_includes (toLowerCase text) ''procedure''"
    using assms(4,5) by (rule includes_lower)
  ultimately have "documentTypeOf (Some text) = ''criminal_procedure''"
    by (rule documentTypeOf_procedure)
  then show ?thesis using assms(1) by (simp add: detectDocumentType_def)
qed

theorem procedure_before_criminal_witness:
  "detectDocumentType
     (example_env (Inr None) (Inr (Some ''Criminal_PROCEDURE'')) [] (Inr (answer ''ok''))) ''q''
     = Inr ''criminal_procedure''"
proof -
  let ?e = "example_env (Inr None) (Inr (Some ''Criminal_PROCEDURE'')) [] (Inr (answer ''ok''))"
  have h1: "classifier_model ?e ''q'' = Inr (Some ''Criminal_PROCEDURE'')"
    by (simp add: example_env_def)
  have h2: "''Criminal_PROCEDURE'' = [] @ ''Criminal'' @ ''_PROCEDURE''" by simp
  have h3: "toLowerCase ''Criminal'' = ''criminal''" by code_simp
  have h4: "''Criminal_PROCEDURE'' = ''Criminal_'' @ ''PROCEDURE'' @ []" by simp
  have h5: "toLowerCase ''PROCEDURE'' = ''procedure''" by code_simp
  from procedure_before_criminal [OF h1 h2 h3 h4 h5] show ?thesis by (rule conjunct1)
qed

subsection \<open>The flow, case by case\<close>

lemmas call_defs =
  call_grammar_def call_classifier_def call_retriever_def call_generate_def

lemmas flow_call_defs =
  call_grammar_def call_classifier_def call_generate_def retrieve_selected_def retrieve_calls_def

lemma flow_grammar_fails:
  assumes "correctGrammar e (in_text inp) = Inl err"
  shows "autonomousAIFlow e inp st =
           \<lparr>result = Inl err, final = st, calls = [GrammarCall (in_text inp)]\<rparr>"
  using assms by (simp add: autonomousAIFlow_def flow_call_defs split_def Let_def)

lemma flow_classify_fails:
  assumes "correctGrammar e (in_text inp) = Inr refined"
    and "getDocumentRetriever e refined = Inl err"
  shows "autonomousAIFlow e inp st =
           \<lparr>result = Inl err, final = st,
            calls = [GrammarCall (in_text inp), ClassifyCall refined]\<rparr>"
  using assms by (simp add: autonomousAIFlow_def flow_call_defs split_def Let_def)

lemma flow_retrieve_fails:
  assumes "correctGrammar e (in_text inp) = Inr refined"
    and "getDocumentRetriever e refined = Inr sel"
    and "retrieve_selected e sel refined = Inl err"
  shows "autonomousAIFlow e inp st =
           \<lparr>result = Inl err, final = st,
            calls = [GrammarCall (in_text inp), ClassifyCall refined] @ retrieve_calls e sel refined\<rparr>"
  using assms by (simp add: autonomousAIFlow_def flow_call_defs split_def Let_def)

lemma flow_generate_fails:
  assumes "correctGrammar e (in_text inp) = Inr refined"
    and "getDocumentRetriever e refined = Inr sel"
    and "retrieve_selected e sel refined = Inr docs"
    and "st1 = record_user_turn e inp (in_text inp) refined st"
    and "request = generation_request e inp refined docs st1"
    and "generate_model e request = Inl err"
  shows "autonomousAIFlow e inp st =
           \<lparr>result = Inl err, final = st1,
            calls = [GrammarCall (in_text inp), ClassifyCall refined] @ retrieve_calls e sel refined
                    @ [GenerateCall request]\<rparr>"
  using assms by (simp add: autonomousAIFlow_def flow_call_defs split_def Let_def)

lemma flow_success:
  assumes "correctGrammar e (in_text inp) = Inr refined"
    and "getDocumentRetriever e refined = Inr sel"
    and "retrieve_selected e sel refined = Inr docs"
    and "st1 = record_user_turn e inp (in_text inp) refined st"
    and "request = generation_request e inp refined docs st1"
    and "generate_model e request = Inr response"
  shows "autonomousAIFlow e inp st =
           \<lparr>result = Inr (or_else (response_text response) ''No response generated.''),
            final = record_model_turn inp response st1,
            calls = [GrammarCall (in_text inp), ClassifyCall refined] @ retrieve_calls e sel refined
                    @ [GenerateCall request]\<rparr>"
  using assms by (simp add: autonomousAIFlow_def flow_call_defs split_def Let_def)

lemma retrieve_calls_no_generate: "GenerateCall req \<notin> set (retrieve_calls e sel q)"
  by (cases sel) (simp_all add: retrieve_calls_def call_retriever_def)

lemma retrieve_calls_query:
  "RetrieveCall r q opts \<in> set (retrieve_calls e sel refined) \<Longrightarrow> q = refined"
  by (cases sel) (simp_all add: retrieve_calls_def call_retriever_def)

lemma detect_fails:
  "classifier_model e q = Inl err \<Longrightarrow> getDocumentRetriever e q = Inl err"
  by (simp add: getDocumentRetriever_def detectDocumentType_def)

lemma documentTypeOf_none_lit: "documentTypeOf (Some ''none'') = ''none''"
  by code_simp

lemma failed_run_state:
  assumes "result (autonomousAIFlow e inp st) = Inl err"
  shows "if (\<exists>req. GenerateCall req \<in> set (calls (autonomousAIFlow e inp st)))
         then final (autonomousAIFlow e inp st)
                = record_user_turn e inp (in_text inp) (projr (correctGrammar e (in_text inp))) st
         else final (autonomousAIFlow e inp st) = st"
proof (cases "correctGrammar e (in_text inp)")
  case (Inl a)
  then show ?thesis by (simp add: flow_grammar_fails)
next
  case g: (Inr refined)
  show ?thesis
  proof (cases "getDocumentRetriever e refined")
    case (Inl a)
    then show ?thesis using g by (simp add: flow_classify_fails)
  next
    case s: (Inr sel)
    show ?thesis
    proof (cases "retrieve_selected e sel refined")
      case (Inl a)
      then show ?thesis using g s by (simp add: flow_retrieve_fails retrieve_calls_no_generate)
    next
      case d: (Inr docs)
      let ?st1 = "record_user_turn e inp (in_text inp) refined st"
      let ?req = "generation_request e inp refined docs ?st1"
      show ?thesis
      proof (cases "generate_model e ?req")
        case (Inl a)
        then show ?thesis using g s d by (auto simp: flow_generate_fails [OF g s d refl refl])
      next
        case (Inr response)
        then show ?thesis using assms by (simp add: flow_success [OF g s d refl refl])
      qed
    qed
  qed
qed

subsection \<open>Failures of single stages\<close>

text \<open>
  C1 (as amended). When the classification call throws, nothing absorbs the
  error: the request fails with that error, neither retrieval nor generation
  is called, and the state is left as it was.
\<close>

theorem classification_error_aborts:
  assumes "correctGrammar e (in_text inp) = Inr refined"
    and "classifier_model e refined = Inl err"
  shows "autonomousAIFlow e inp st =
           \<lparr>result = Inl err, final = st,
            calls = [GrammarCall (in_text inp), ClassifyCall refined]\<rparr>"
  using assms(1) detect_fails [OF assms(2)] by (rule flow_classify_fails)

theorem classification_error_aborts_witness:
  "autonomousAIFlow
     (example_env (Inr (Some ''What is theft?'')) (Inl (Thrown ''classifier unavailable''))
        [] (Inr (answer ''Theft is ...'')))
     guest_input empty_state =
   \<lparr>result = Inl (Thrown ''classifier unavailable''), final = empty_state,
    calls = [GrammarCall ''wat is theft'', ClassifyCall ''What is theft?'']\<rparr>"
proof -
  let ?e = "example_env (Inr (Some ''What is theft?'')) (Inl (Thrown ''classifier unavailable''))
        [] (Inr (answer ''Theft is ...''))"
  have g: "correctGrammar ?e (in_text guest_input) = Inr ''What is theft?''"
    by (simp add: correctGrammar_def example_env_def)
  have c: "classifier_model ?e ''What is theft?'' = Inl (Thrown ''classifier unavailable'')"
    by (simp add: example_env_def)
  show ?thesis
    using classification_error_aborts [OF g c, of empty_state] by (simp add: guest_input_def)
qed

text \<open>
  C1 as stated fails: with a classifier that throws and a generation model that
  would answer, the request fails and no generation call is made.
\<close>

theorem classification_error_counterexample:
  "result (autonomousAIFlow
     (example_env (Inr (Some ''What is theft?'')) (Inl (Thrown ''classifier unavailable''))
        [] (Inr (answer ''Theft is ...'')))
     guest_input empty_state) = Inl (Thrown ''classifier unavailable'')
   \<and> calls (autonomousAIFlow
     (example_env (Inr (Some ''What is theft?'')) (Inl (Thrown ''classifier unavailable''))
        [] (Inr (answer ''Theft is ...'')))
     guest_input empty_state) = [GrammarCall ''wat is theft'', ClassifyCall ''What is theft?'']"
  by (simp add: autonomousAIFlow_def call_defs split_def correctGrammar_def getDocumentRetriever_def
        detectDocumentType_def example_env_def guest_input_def)

text \<open>
  C3 (as amended). A failed request without user identifier leaves the state,
  and with it the in-memory history table, as it was when the failure came
  before the generation call (grammar pass, classification, retrieval); when the
  generation call itself throws, the table differs from the one before the
  request by the user turn appended to that conversation, and by nothing else.
\<close>

theorem failed_guest_request_history:
  assumes "\<not> authenticated inp"
    and "result (autonomousAIFlow e inp st) = Inl err"
  shows "if (\<exists>req. GenerateCall req \<in> set (calls (autonomousAIFlow e inp st)))
         then final (autonomousAIFlow e inp st)
                = st\<lparr>CHAT_HISTORY := (CHAT_HISTORY st)(chatroomId inp \<mapsto>
                       history_of st (chatroomId inp) @ [turn User (in_text inp)])\<rparr>
         else final (autonomousAIFlow e inp st) = st"
  using failed_run_state [OF assms(2)] assms(1)
  by (simp add: record_user_turn_def append_turn_def)

theorem failed_guest_request_history_witness:
  "final (autonomousAIFlow
        (example_env (Inr None) (Inr (Some ''none'')) [] (Inl (Thrown ''model unavailable'')))
        guest_input empty_state)
     = empty_state\<lparr>CHAT_HISTORY := [''c1'' \<mapsto> [turn User ''wat is theft'']]\<rparr>"
proof -
  let ?e = "example_env (Inr None) (Inr (Some ''none'')) [] (Inl (Thrown ''model unavailable''))"
  let ?run = "autonomousAIFlow ?e guest_input empty_state"
  have a: "\<not> authenticated guest_input"
    by (simp add: authenticated_def guest_input_def)
  have run: "?run = \<lparr>result = Inl (Thrown ''model unavailable''),
       final = record_user_turn ?e guest_input ''wat is theft'' ''wat is theft'' empty_state,
       calls = [GrammarCall ''wat is theft'', ClassifyCall ''wat is theft'',
                GenerateCall (generation_request ?e guest_input ''wat is theft'' []
                  (record_user_turn ?e guest_input ''wat is theft'' ''wat is theft'' empty_state))]\<rparr>"
    by (simp add: autonomousAIFlow_def call_defs split_def correctGrammar_def getDocumentRetriever_def
        detectDocumentType_def example_env_def guest_input_def Let_def
        retrieve_selected_def retrieve_calls_def documentTypeOf_none_lit)
  have r: "result ?run = Inl (Thrown ''model unavailable'')"
    by (simp add: run)
  have c: "\<exists>req. GenerateCall req \<in> set (calls ?run)"
    by (simp add: run)
  from failed_guest_request_history [OF a r] c show ?thesis
    by (simp add: guest_input_def history_of_def empty_state_def)
qed

text \<open>
  C3 as stated fails: the generation call throws, and the conversation that had
  no history before the request has the user turn afterwards.
\<close>

theorem failed_generation_counterexample:
  "\<not> authenticated guest_input
   \<and> result (autonomousAIFlow
        (example_env (Inr None) (Inr (Some ''none'')) [] (Inl (Thrown ''model unavailable'')))
        guest_input empty_state) = Inl (Thrown ''model unavailable'')
   \<and> CHAT_HISTORY empty_state ''c1'' = None
   \<and> CHAT_HISTORY (final (autonomousAIFlow
        (example_env (Inr None) (Inr (Some ''none'')) [] (Inl (Thrown ''model unavailable'')))
        guest_input empty_state)) ''c1'' = Some [turn User ''wat is theft'']"
  by (simp add: autonomousAIFlow_def call_defs split_def correctGrammar_def getDocumentRetriever_def
        detectDocumentType_def example_env_def guest_input_def empty_state_def Let_def
        retrieve_selected_def retrieve_calls_def record_user_turn_def authenticated_def
        append_turn_def history_of_def generation_request_def documentTypeOf_none_lit)

subsection \<open>The retrievers\<close>

lemma threshold_stage_subseq: "subseq (threshold_stage options docs) docs"
  by (simp add: threshold_stage_def split: option.split)

lemma metadata_stage_subseq: "subseq (metadata_stage options docs) docs"
  by (simp add: metadata_stage_def split: option.split)

lemma page_stage_subseq: "subseq (page_stage options docs) docs"
  by (simp add: page_stage_def split: option.split)

lemma handler_answer:
  assumes "search e r query (limit_of options) = Inr results"
  shows "handler r e query options = Inr (filtered r options (unfiltered r results))"
  using assms by (cases r) (simp_all add: vectorDb_handler_def code_handler_def)


lemma ai_retrieve_answer:
  assumes "valid_options options"
    and "search e r query (limit_of options) = Inr results"
  shows "ai_retrieve e r query options = Inr (filtered r options (unfiltered r results))"
  using assms by (simp add: ai_retrieve_def handler_answer)


lemma filtered_subseq: "subseq (filtered r options docs) docs"
proof -
  have a: "subseq (metadata_stage options (threshold_stage options docs)) docs"
    by (rule subseq_order.trans [OF metadata_stage_subseq threshold_stage_subseq])
  have b: "subseq (page_stage options (threshold_stage options docs)) docs"
    by (rule subseq_order.trans [OF page_stage_subseq threshold_stage_subseq])
  show ?thesis by (cases r) (simp_all add: a b)
qed

text \<open>
  A document of a handler has the single top-level key \<^verbatim>\<open>metadata\<close>, holding
  an object: no top-level read finds a number, and no strict comparison with a
  value of the request succeeds.
\<close>

lemma unfiltered_top_level:
  assumes "d \<in> set (unfiltered r results)"
  shows "\<exists>m. metadata d = [''metadata'' \<mapsto> JObj m]"
  using assms by (cases r) (auto simp: vectorDb_document_def code_document_def fromText_def)


lemma unfiltered_below_threshold:
  assumes "d \<in> set (unfiltered r results)"
  shows "\<not> score_at_least t d"
proof -
  from assms obtain m where "metadata d = [''metadata'' \<mapsto> JObj m]"
    using unfiltered_top_level by blast
  then show ?thesis by (simp add: score_at_least_def)
qed

lemma unfiltered_passage_score:
  assumes "d \<in> set (unfiltered r results)"
  shows "\<exists>row\<in>set results. passage_score d = Some (similarity_score row)"
  using assms
  by (cases r)
     (auto simp: vectorDb_document_def code_document_def fromText_def passage_score_def
        passage_metadata_def)

lemma active_threshold_answers_nothing:
  assumes "similarityThreshold options = Some t" and "t \<noteq> 0"
  shows "filtered r options (unfiltered r results) = []"
proof -
  have "threshold_stage options (unfiltered r results) = []"
    using assms unfiltered_below_threshold by (auto simp: threshold_stage_def filter_empty_conv)
  then show ?thesis
    by (cases r) (simp_all add: metadata_stage_def page_stage_def split: option.splits)
qed

lemma filtered_subset: "set (filtered r options docs) \<subseteq> set docs"
  by (cases r)
     (auto simp: metadata_stage_def page_stage_def threshold_stage_def
        split: option.splits if_splits)




lemmas scenario_defs =
  scenario_env_def example_env_def limit_of_def no_options_def scenario_rows_def

lemmas handler_defs =
  ai_retrieve_def valid_options_def vectorDb_handler_def code_handler_def threshold_stage_def
  metadata_stage_def page_stage_def score_at_least_def matches_metadata_def
  vectorDb_document_def code_document_def fromText_def example_row_def article_row_def

text \<open>
  C6. Whatever options the schema admits, the documents a retriever answers
  with are a subsequence of the documents of its search result: filtering
  removes passages and keeps the others in their order.
\<close>

theorem filtering_preserves_order:
  assumes "valid_options options"
    and "search e r query (limit_of options) = Inr results"
  shows "\<exists>docs. ai_retrieve e r query options = Inr docs \<and> subseq docs (unfiltered r results)"
  using ai_retrieve_answer [OF assms] filtered_subseq by simp

theorem filtering_preserves_order_witness:
  "ai_retrieve (scenario_env scenario_rows) vectorDbRetriever ''dignity''
      (no_options\<lparr>k := Some 2, metadataFilter := Some []\<rparr>)
     = Inr [vectorDb_document (example_row 0.91), vectorDb_document (example_row 0.77)]
   \<and> subseq [vectorDb_document (example_row 0.91), vectorDb_document (example_row 0.77)]
        (unfiltered vectorDbRetriever [example_row 0.91, example_row 0.77])
   \<and> ai_retrieve (scenario_env scenario_rows) criminalCodeRetriever ''dignity''
      (no_options\<lparr>similarityThreshold := Some 0.5\<rparr>) = Inr []"
proof -
  let ?o = "no_options\<lparr>k := Some 2, metadataFilter := Some []\<rparr>"
  let ?p = "no_options\<lparr>similarityThreshold := Some 0.5\<rparr>"
  have vo: "valid_options ?o" by (simp add: valid_options_def no_options_def)
  have vp: "valid_options ?p" by (simp add: valid_options_def no_options_def)
  have h: "search (scenario_env scenario_rows) vectorDbRetriever ''dignity'' (limit_of ?o)
             = Inr [example_row 0.91, example_row 0.77]"
    by (simp add: scenario_defs)
  have hp: "search (scenario_env scenario_rows) criminalCodeRetriever ''dignity'' (limit_of ?p)
             = Inr scenario_rows"
    by (simp add: scenario_defs)
  have v: "ai_retrieve (scenario_env scenario_rows) vectorDbRetriever ''dignity'' ?o
     = Inr [vectorDb_document (example_row 0.91), vectorDb_document (example_row 0.77)]"
    by (simp add: scenario_defs handler_defs)
  have "filtered criminalCodeRetriever ?p (unfiltered criminalCodeRetriever scenario_rows) = []"
    by (rule active_threshold_answers_nothing [where t = "0.5"]) simp_all
  with ai_retrieve_answer [OF vp hp]
  have p: "ai_retrieve (scenario_env scenario_rows) criminalCodeRetriever ''dignity'' ?p = Inr []"
    by simp
  from filtering_preserves_order [OF vo h] v p show ?thesis by simp
qed

text \<open>
  C4. With \<open>similarityThreshold = t\<close> set, \<open>t\<close> between 0 and 1, and the
  scores of the search in the range 0 to 1 that the data model gives them, every
  document in the answer of any of the four retrievers carries a similarity
  score of at least \<open>t\<close>. (For \<open>t\<close> other than 0 the answer is empty, see
  \<open>active_threshold_answers_nothing\<close>: the comparison reads
  \<^verbatim>\<open>doc.metadata.similarityScore\<close>, one level above the score.)
\<close>

theorem threshold_bounds_scores:
  assumes "search e r query (limit_of options) = Inr results"
    and "similarityThreshold options = Some t"
    and "0 \<le> t" and "t \<le> 1"
    and "\<forall>row\<in>set results. 0 \<le> similarity_score row \<and> similarity_score row \<le> 1"
  shows "\<exists>docs. ai_retrieve e r query options = Inr docs \<and>
           (\<forall>d\<in>set docs. \<exists>x. passage_score d = Some x \<and> t \<le> x)"
proof -
  let ?docs = "filtered r options (unfiltered r results)"
  have v: "valid_options options"
    using assms(2-4) by (simp add: valid_options_def)
  have "\<exists>x. passage_score d = Some x \<and> t \<le> x" if d: "d \<in> set ?docs" for d
  proof (cases "t = 0")
    case True
    from d have "d \<in> set (unfiltered r results)" using filtered_subset by blast
    then obtain row where "row \<in> set results" and "passage_score d = Some (similarity_score row)"
      using unfiltered_passage_score by blast
    with True assms(5) show ?thesis by auto
  next
    case False
    with d active_threshold_answers_nothing [OF assms(2) False] show ?thesis by simp
  qed
  then show ?thesis using ai_retrieve_answer [OF v assms(1)] by simp
qed

theorem threshold_bounds_scores_witness:
  "ai_retrieve (scenario_env scenario_rows) civilCodeRetriever ''dignity''
      (no_options\<lparr>similarityThreshold := Some 0\<rparr>) = Inr (map code_document scenario_rows)
   \<and> map passage_score (map code_document scenario_rows) = [Some 0.91, Some 0.77, Some 0.40]
   \<and> ai_retrieve (scenario_env scenario_rows) civilCodeRetriever ''dignity''
      (no_options\<lparr>similarityThreshold := Some 0.5\<rparr>) = Inr []"
proof -
  let ?z = "no_options\<lparr>similarityThreshold := Some 0\<rparr>"
  let ?p = "no_options\<lparr>similarityThreshold := Some 0.5\<rparr>"
  let ?e = "scenario_env scenario_rows"
  have hz: "search ?e civilCodeRetriever ''dignity'' (limit_of ?z) = Inr scenario_rows"
    by (simp add: scenario_defs)
  have hp: "search ?e civilCodeRetriever ''dignity'' (limit_of ?p) = Inr scenario_rows"
    by (simp add: scenario_defs)
  have tz: "similarityThreshold ?z = Some 0" by simp
  have tp: "similarityThreshold ?p = Some 0.5" by simp
  have range: "\<forall>row\<in>set scenario_rows. 0 \<le> similarity_score row \<and> similarity_score row \<le> 1"
    by (simp add: scenario_rows_def example_row_def)
  have z: "ai_retrieve ?e civilCodeRetriever ''dignity'' ?z = Inr (map code_document scenario_rows)"
    by (simp add: scenario_defs handler_defs)
  have s: "map passage_score (map code_document scenario_rows) = [Some 0.91, Some 0.77, Some 0.40]"
    by (simp add: scenario_rows_def example_row_def code_document_def fromText_def
        passage_score_def passage_metadata_def)
  from threshold_bounds_scores [OF hp tp _ _ range]
  obtain docs where d: "ai_retrieve ?e civilCodeRetriever ''dignity'' ?p = Inr docs"
    and b: "\<forall>d\<in>set docs. \<exists>x. passage_score d = Some x \<and> 0.5 \<le> x"
    by auto
  have "ai_retrieve ?e civilCodeRetriever ''dignity'' ?p = Inr []"
    by (simp add: scenario_defs handler_defs)
  with threshold_bounds_scores [OF hz tz _ _ range] z s show ?thesis by simp
qed




subsection \<open>Unrecognised and empty classifier responses\<close>

lemma retriever_of_none:
  "detectDocumentType e q = Inr ''none'' \<Longrightarrow> getDocumentRetriever e q = Inr None"
  by (simp add: getDocumentRetriever_def)

lemma unrecognized_gives_none:
  assumes "correctGrammar e (in_text inp) = Inr refined"
    and "classifier_model e refined = Inr (Some text)"
    and "js_trim (toLowerCase text) \<noteq> []"
    and "\<not> js_includes (toLowerCase text) ''criminal''"
    and "\<not> js_includes (toLowerCase text) ''civil''"
    and "\<not> js_includes (toLowerCase text) ''constitution''"
  shows "detectDocumentType e refined = Inr ''none''
       \<and> getDocumentRetriever e refined = Inr None
       \<and> (\<exists>request. calls (autonomousAIFlow e inp st) =
              [GrammarCall (in_text inp), ClassifyCall refined, GenerateCall request]
            \<and> gr_docs request = [])"
proof -
  have "documentTypeOf (Some text) = ''none''"
    using assms(3-6) by (rule documentTypeOf_none)
  then have d: "detectDocumentType e refined = Inr ''none''"
    using assms(2) by (simp add: detectDocumentType_def)
  then have s: "getDocumentRetriever e refined = Inr None" by (rule retriever_of_none)
  have r: "retrieve_selected e None refined = Inr []"
    by (simp add: retrieve_selected_def call_retriever_def)
  let ?st1 = "record_user_turn e inp (in_text inp) refined st"
  let ?req = "generation_request e inp refined [] ?st1"
  have "calls (autonomousAIFlow e inp st) =
          [GrammarCall (in_text inp), ClassifyCall refined, GenerateCall ?req]"
  proof (cases "generate_model e ?req")
    case (Inl a)
    then show ?thesis
      by (simp add: flow_generate_fails [OF assms(1) s r refl refl] retrieve_calls_def
          call_retriever_def)
  next
    case (Inr b)
    then show ?thesis
      by (simp add: flow_success [OF assms(1) s r refl refl] retrieve_calls_def
          call_retriever_def)
  qed
  moreover have "gr_docs ?req = []" by (simp add: generation_request_def)
  ultimately show ?thesis using d s by blast
qed

lemma toLowerChar_blank: "isWhiteSpace c \<Longrightarrow> toLowerChar c = c"
  by (auto simp: isWhiteSpace_def toLowerChar_def Let_def)

lemma blank_trim:
  assumes "\<forall>c\<in>set t. isWhiteSpace c"
  shows "js_trim (toLowerCase t) = []"
proof -
  have 1: "toLowerCase t = t"
    unfolding toLowerCase_def using assms by (intro map_idI) (simp add: toLowerChar_blank)
  have 2: "dropWhile isWhiteSpace (rev t) = []"
    using assms by simp
  show ?thesis unfolding js_trim_def 1 2 by simp
qed

lemma documentTypeOf_blank:
  assumes "reply = None \<or> (\<exists>t. reply = Some t \<and> (\<forall>c\<in>set t. isWhiteSpace c))"
  shows "documentTypeOf reply = ''constitution''"
proof -
  from assms consider "reply = None" | t where "reply = Some t" "js_trim (toLowerCase t) = []"
    using blank_trim by blast
  then show ?thesis
  proof cases
    case 1
    then show ?thesis by (simp add: documentTypeOf_empty)
  next
    case 2
    then have "documentTypeOf reply = documentTypeOf (Some [])"
      by (simp add: documentTypeOf_def js_trim_def toLowerCase_def)
    then show ?thesis by (simp add: documentTypeOf_empty)
  qed
qed

lemma retrieve_calls_Some:
  "retrieve_calls e (Some r) q = [RetrieveCall r q flow_options]"
  by (simp add: retrieve_calls_def call_retriever_def)

lemma retrieve_selected_Some:
  "retrieve_selected e (Some r) q = ai_retrieve e r q flow_options"
  by (simp add: retrieve_selected_def call_retriever_def)

lemma flow_options_unfiltered:
  assumes "search e r q 3 = Inr results"
  shows "ai_retrieve e r q flow_options = Inr (unfiltered r results)"
proof -
  have v: "valid_options flow_options" by (simp add: valid_options_def flow_options_def)
  have l: "limit_of flow_options = 3" by (simp add: limit_of_def flow_options_def)
  have "filtered r flow_options docs = docs" for docs
    by (cases r)
       (simp_all add: threshold_stage_def metadata_stage_def page_stage_def flow_options_def)
  then show ?thesis using ai_retrieve_answer [OF v, of e r q results] assms l by simp
qed

lemma blank_gives_constitution:
  assumes g: "correctGrammar e (in_text inp) = Inr refined"
    and c: "classifier_model e refined = Inr reply"
    and b: "reply = None \<or> (\<exists>t. reply = Some t \<and> (\<forall>c\<in>set t. isWhiteSpace c))"
  shows "detectDocumentType e refined = Inr ''constitution''
       \<and> getDocumentRetriever e refined = Inr (Some vectorDbRetriever)
       \<and> take 3 (calls (autonomousAIFlow e inp st)) =
           [GrammarCall (in_text inp), ClassifyCall refined,
            RetrieveCall vectorDbRetriever refined flow_options]
       \<and> (\<forall>results. search e vectorDbRetriever refined 3 = Inr results \<longrightarrow>
            (\<exists>request. calls (autonomousAIFlow e inp st) =
               [GrammarCall (in_text inp), ClassifyCall refined,
                RetrieveCall vectorDbRetriever refined flow_options, GenerateCall request]
             \<and> gr_docs request = map vectorDb_document results))"
proof -
  have d: "detectDocumentType e refined = Inr ''constitution''"
    using c documentTypeOf_blank [OF b] by (simp add: detectDocumentType_def)
  then have s: "getDocumentRetriever e refined = Inr (Some vectorDbRetriever)"
    by (simp add: getDocumentRetriever_def)
  let ?sel = "Some vectorDbRetriever"
  let ?st1 = "record_user_turn e inp (in_text inp) refined st"
  have calls4: "calls (autonomousAIFlow e inp st) =
      [GrammarCall (in_text inp), ClassifyCall refined,
       RetrieveCall vectorDbRetriever refined flow_options,
       GenerateCall (generation_request e inp refined docs ?st1)]"
    if r: "retrieve_selected e ?sel refined = Inr docs" for docs
  proof (cases "generate_model e (generation_request e inp refined docs ?st1)")
    case (Inl a)
    show ?thesis
      by (simp add: flow_generate_fails [OF g s r refl refl Inl] retrieve_calls_Some)
  next
    case (Inr response)
    show ?thesis
      by (simp add: flow_success [OF g s r refl refl Inr] retrieve_calls_Some)
  qed
  have t3: "take 3 (calls (autonomousAIFlow e inp st)) =
           [GrammarCall (in_text inp), ClassifyCall refined,
            RetrieveCall vectorDbRetriever refined flow_options]"
  proof (cases "retrieve_selected e ?sel refined")
    case (Inl a)
    show ?thesis by (simp add: flow_retrieve_fails [OF g s Inl] retrieve_calls_Some)
  next
    case (Inr docs)
    show ?thesis by (simp add: calls4 [OF Inr])
  qed
  have "\<exists>request. calls (autonomousAIFlow e inp st) =
               [GrammarCall (in_text inp), ClassifyCall refined,
                RetrieveCall vectorDbRetriever refined flow_options, GenerateCall request]
             \<and> gr_docs request = map vectorDb_document results"
    if h: "search e vectorDbRetriever refined 3 = Inr results" for results
  proof -
    have "retrieve_selected e ?sel refined = Inr (map vectorDb_document results)"
      using flow_options_unfiltered [OF h] by (simp add: retrieve_selected_Some)
    from calls4 [OF this] show ?thesis by (simp add: generation_request_def)
  qed
  with d s t3 show ?thesis by blast
qed

text \<open>
  C2 (as amended). A classifier response whose text, lowercased and trimmed, is
  not empty and contains none of "criminal", "civil" and "constitution" resolves
  to the \<open>none\<close> tag; no retriever is selected, no retrieval call is made and
  the generation request carries an empty document sequence. An absent, empty or
  all-blank response text is replaced by "constitution" before matching: it
  resolves to the constitution tag, the constitution retriever is called with the
  query, and the passages its search returns are the documents of the generation
  request.
\<close>

theorem unrecognized_none_blank_constitution:
  assumes "correctGrammar e (in_text inp) = Inr refined"
    and "classifier_model e refined = Inr reply"
  shows "(\<forall>t. reply = Some t \<longrightarrow> js_trim (toLowerCase t) \<noteq> [] \<longrightarrow>
            \<not> js_includes (toLowerCase t) ''criminal'' \<longrightarrow>
            \<not> js_includes (toLowerCase t) ''civil'' \<longrightarrow>
            \<not> js_includes (toLowerCase t) ''constitution'' \<longrightarrow>
              detectDocumentType e refined = Inr ''none''
              \<and> getDocumentRetriever e refined = Inr None
              \<and> (\<exists>request. calls (autonomousAIFlow e inp st) =
                     [GrammarCall (in_text inp), ClassifyCall refined, GenerateCall request]
                   \<and> gr_docs request = []))
       \<and> (reply = None \<or> (\<exists>t. reply = Some t \<and> (\<forall>c\<in>set t. isWhiteSpace c)) \<longrightarrow>
            detectDocumentType e refined = Inr ''constitution''
            \<and> getDocumentRetriever e refined = Inr (Some vectorDbRetriever)
            \<and> take 3 (calls (autonomousAIFlow e inp st)) =
                [GrammarCall (in_text inp), ClassifyCall refined,
                 RetrieveCall vectorDbRetriever refined flow_options]
            \<and> (\<forall>results. search e vectorDbRetriever refined 3 = Inr results \<longrightarrow>
                 (\<exists>request. calls (autonomousAIFlow e inp st) =
                    [GrammarCall (in_text inp), ClassifyCall refined,
                     RetrieveCall vectorDbRetriever refined flow_options, GenerateCall request]
                  \<and> gr_docs request = map vectorDb_document results)))"
proof (intro conjI allI impI)
  fix t
  assume "reply = Some t" "js_trim (toLowerCase t) \<noteq> []"
    "\<not> js_includes (toLowerCase t) ''criminal''"
    "\<not> js_includes (toLowerCase t) ''civil''"
    "\<not> js_includes (toLowerCase t) ''constitution''"
  with assms unrecognized_gives_none [of e inp refined t st]
  show "detectDocumentType e refined = Inr ''none''"
    and "getDocumentRetriever e refined = Inr None"
    and "\<exists>request. calls (autonomousAIFlow e inp st) =
                     [GrammarCall (in_text inp), ClassifyCall refined, GenerateCall request]
                   \<and> gr_docs request = []"
    by simp_all
next
  assume b: "reply = None \<or> (\<exists>t. reply = Some t \<and> (\<forall>c\<in>set t. isWhiteSpace c))"
  note r = blank_gives_constitution [OF assms b, of st]
  from r show "detectDocumentType e refined = Inr ''constitution''" by blast
  from r show "getDocumentRetriever e refined = Inr (Some vectorDbRetriever)" by blast
  from r show "take 3 (calls (autonomousAIFlow e inp st)) =
                [GrammarCall (in_text inp), ClassifyCall refined,
                 RetrieveCall vectorDbRetriever refined flow_options]" by blast
  fix results
  assume "search e vectorDbRetriever refined 3 = Inr results"
  with r show "\<exists>request. calls (autonomousAIFlow e inp st) =
                    [GrammarCall (in_text inp), ClassifyCall refined,
                     RetrieveCall vectorDbRetriever refined flow_options, GenerateCall request]
                  \<and> gr_docs request = map vectorDb_document results" by blast
qed

theorem unrecognized_none_blank_constitution_witness:
  "detectDocumentType
     (example_env (Inr None) (Inr (Some '' I am not sure '')) [example_row 0.9] (Inr (answer ''ok'')))
     ''wat is theft'' = Inr ''none''
   \<and> calls (autonomousAIFlow
     (example_env (Inr None) (Inr (Some '' I am not sure '')) [example_row 0.9] (Inr (answer ''ok'')))
     guest_input empty_state) =
     [GrammarCall ''wat is theft'', ClassifyCall ''wat is theft'',
      GenerateCall \<lparr>gr_system = ''You are Kanoon Sathi'', gr_prompt = ''wat is theft'',
         gr_docs = [], gr_messages = [turn User ''wat is theft'']\<rparr>]
   \<and> detectDocumentType
     (example_env (Inr None) (Inr (Some ''  '')) [example_row 0.9] (Inr (answer ''ok'')))
     ''wat is theft'' = Inr ''constitution''
   \<and> calls (autonomousAIFlow
     (example_env (Inr None) (Inr (Some ''  '')) [example_row 0.9] (Inr (answer ''ok'')))
     guest_input empty_state) =
     [GrammarCall ''wat is theft'', ClassifyCall ''wat is theft'',
      RetrieveCall vectorDbRetriever ''wat is theft'' flow_options,
      GenerateCall \<lparr>gr_system = ''You are Kanoon Sathi'', gr_prompt = ''wat is theft'',
         gr_docs = [vectorDb_document (example_row 0.9)],
         gr_messages = [turn User ''wat is theft'']\<rparr>]"
proof -
  let ?e = "example_env (Inr None) (Inr (Some '' I am not sure '')) [example_row 0.9] (Inr (answer ''ok''))"
  let ?b = "example_env (Inr None) (Inr (Some ''  '')) [example_row 0.9] (Inr (answer ''ok''))"
  let ?st1 = "empty_state\<lparr>CHAT_HISTORY := [''c1'' \<mapsto> [turn User ''wat is theft'']]\<rparr>"
  have g: "correctGrammar ?e (in_text guest_input) = Inr ''wat is theft''"
    by (simp add: correctGrammar_def example_env_def guest_input_def)
  have c: "classifier_model ?e ''wat is theft'' = Inr (Some '' I am not sure '')"
    by (simp add: example_env_def)
  have t: "js_trim (toLowerCase '' I am not sure '') \<noteq> []" by code_simp
  have n1: "\<not> js_includes (toLowerCase '' I am not sure '') ''criminal''" by code_simp
  have n2: "\<not> js_includes (toLowerCase '' I am not sure '') ''civil''" by code_simp
  have n3: "\<not> js_includes (toLowerCase '' I am not sure '') ''constitution''" by code_simp
  from unrecognized_none_blank_constitution [OF g c, of empty_state] t n1 n2 n3
  obtain request where d: "detectDocumentType ?e ''wat is theft'' = Inr ''none''"
    and cs: "calls (autonomousAIFlow ?e guest_input empty_state) =
      [GrammarCall (in_text guest_input), ClassifyCall ''wat is theft'', GenerateCall request]"
    by blast
  have "calls (autonomousAIFlow ?e guest_input empty_state) ! 2 = GenerateCall
     \<lparr>gr_system = ''You are Kanoon Sathi'', gr_prompt = ''wat is theft'',
         gr_docs = [], gr_messages = [turn User ''wat is theft'']\<rparr>"
    using d g
    by (simp add: autonomousAIFlow_def call_defs split_def getDocumentRetriever_def
        Let_def generation_request_def record_user_turn_def authenticated_def
        guest_input_def append_turn_def history_of_def empty_state_def example_env_def)
  with cs have "request = \<lparr>gr_system = ''You are Kanoon Sathi'', gr_prompt = ''wat is theft'',
         gr_docs = [], gr_messages = [turn User ''wat is theft'']\<rparr>" by simp
  with cs d have none: "detectDocumentType ?e ''wat is theft'' = Inr ''none''
     \<and> calls (autonomousAIFlow ?e guest_input empty_state) =
     [GrammarCall ''wat is theft'', ClassifyCall ''wat is theft'',
      GenerateCall \<lparr>gr_system = ''You are Kanoon Sathi'', gr_prompt = ''wat is theft'',
         gr_docs = [], gr_messages = [turn User ''wat is theft'']\<rparr>]"
    by (simp add: guest_input_def)
  have gb: "correctGrammar ?b (in_text guest_input) = Inr ''wat is theft''"
    by (simp add: correctGrammar_def example_env_def guest_input_def)
  have cb: "classifier_model ?b ''wat is theft'' = Inr (Some ''  '')"
    by (simp add: example_env_def)
  have blank: "Some ''  '' = None \<or> (\<exists>t. Some ''  '' = Some t \<and> (\<forall>c\<in>set t. isWhiteSpace c))"
    by (simp add: isWhiteSpace_def)
  have sb: "search ?b vectorDbRetriever ''wat is theft'' 3 = Inr [example_row 0.9]"
    by (simp add: example_env_def)
  from unrecognized_none_blank_constitution [OF gb cb, of empty_state] blank sb
  obtain request' where db: "detectDocumentType ?b ''wat is theft'' = Inr ''constitution''"
    and csb: "calls (autonomousAIFlow ?b guest_input empty_state) =
      [GrammarCall (in_text guest_input), ClassifyCall ''wat is theft'',
       RetrieveCall vectorDbRetriever ''wat is theft'' flow_options, GenerateCall request']"
    and docs: "gr_docs request' = map vectorDb_document [example_row 0.9]"
    by blast
  have "calls (autonomousAIFlow ?b guest_input empty_state) ! 3 = GenerateCall
     \<lparr>gr_system = ''You are Kanoon Sathi'', gr_prompt = ''wat is theft'',
         gr_docs = [vectorDb_document (example_row 0.9)],
         gr_messages = [turn User ''wat is theft'']\<rparr>"
    using db gb
    by (simp add: autonomousAIFlow_def call_defs split_def getDocumentRetriever_def
        Let_def generation_request_def record_user_turn_def authenticated_def
        guest_input_def append_turn_def history_of_def empty_state_def example_env_def
        ai_retrieve_def valid_options_def vectorDb_handler_def limit_of_def flow_options_def
        threshold_stage_def metadata_stage_def)
  with csb have "request' = \<lparr>gr_system = ''You are Kanoon Sathi'', gr_prompt = ''wat is theft'',
         gr_docs = [vectorDb_document (example_row 0.9)],
         gr_messages = [turn User ''wat is theft'']\<rparr>" by simp
  with csb db none show ?thesis by (simp add: guest_input_def)
qed

text \<open>
  C2 as stated fails for the empty response: the classifier answers with the
  constitution tag, the constitution retriever is called, and the passage it
  returns is passed to generation.
\<close>

theorem empty_response_counterexample:
  "classifier_model
     (example_env (Inr None) (Inr (Some [])) [example_row 0.9] (Inr (answer ''ok'')))
     ''wat is theft'' = Inr (Some [])
   \<and> detectDocumentType
     (example_env (Inr None) (Inr (Some [])) [example_row 0.9] (Inr (answer ''ok'')))
     ''wat is theft'' = Inr ''constitution''
   \<and> calls (autonomousAIFlow
     (example_env (Inr None) (Inr (Some [])) [example_row 0.9] (Inr (answer ''ok'')))
     guest_input empty_state) =
     [GrammarCall ''wat is theft'', ClassifyCall ''wat is theft'',
      RetrieveCall vectorDbRetriever ''wat is theft'' flow_options,
      GenerateCall \<lparr>gr_system = ''You are Kanoon Sathi'', gr_prompt = ''wat is theft'',
         gr_docs = [vectorDb_document (example_row 0.9)],
         gr_messages = [turn User ''wat is theft'']\<rparr>]"
  by (simp add: autonomousAIFlow_def call_defs split_def correctGrammar_def getDocumentRetriever_def
        detectDocumentType_def example_env_def guest_input_def empty_state_def Let_def
        retrieve_selected_def retrieve_calls_def record_user_turn_def authenticated_def
        append_turn_def history_of_def generation_request_def documentTypeOf_empty
        ai_retrieve_def valid_options_def vectorDb_handler_def fromText_def limit_of_def flow_options_def threshold_stage_def metadata_stage_def)

subsection \<open>The answer and the recorded turns\<close>

lemma successful_run:
  assumes "result (autonomousAIFlow e inp st) = Inr out"
  obtains refined sel docs response where
    "correctGrammar e (in_text inp) = Inr refined"
    "getDocumentRetriever e refined = Inr sel"
    "retrieve_selected e sel refined = Inr docs"
    "generate_model e (generation_request e inp refined docs
        (record_user_turn e inp (in_text inp) refined st)) = Inr response"
    "autonomousAIFlow e inp st =
       \<lparr>result = Inr (or_else (response_text response) ''No response generated.''),
        final = record_model_turn inp response (record_user_turn e inp (in_text inp) refined st),
        calls = [GrammarCall (in_text inp), ClassifyCall refined] @ retrieve_calls e sel refined
                @ [GenerateCall (generation_request e inp refined docs
                     (record_user_turn e inp (in_text inp) refined st))]\<rparr>"
proof (cases "correctGrammar e (in_text inp)")
  case (Inl a)
  with assms show ?thesis by (simp add: flow_grammar_fails)
next
  case g: (Inr refined)
  show ?thesis
  proof (cases "getDocumentRetriever e refined")
    case (Inl a)
    with assms g show ?thesis by (simp add: flow_classify_fails)
  next
    case s: (Inr sel)
    show ?thesis
    proof (cases "retrieve_selected e sel refined")
      case (Inl a)
      with assms g s show ?thesis by (simp add: flow_retrieve_fails)
    next
      case d: (Inr docs)
      let ?st1 = "record_user_turn e inp (in_text inp) refined st"
      let ?req = "generation_request e inp refined docs ?st1"
      show ?thesis
      proof (cases "generate_model e ?req")
        case (Inl a)
        with assms show ?thesis by (simp add: flow_generate_fails [OF g s d refl refl])
      next
        case (Inr response)
        from that [OF g s d Inr flow_success [OF g s d refl refl Inr]] show ?thesis .
      qed
    qed
  qed
qed

lemma or_else_fallback: "or_else t ''No response generated.'' \<noteq> []"
  by (cases t) simp_all

lemma or_else_falsy: "\<not> truthy t \<Longrightarrow> or_else t d = d"
  by (cases t) simp_all

lemma flow_never_empty:
  assumes "result (autonomousAIFlow e inp st) = Inr out"
  shows "out \<noteq> []"
proof -
  from assms obtain refined sel docs response where
    "autonomousAIFlow e inp st =
       \<lparr>result = Inr (or_else (response_text response) ''No response generated.''),
        final = record_model_turn inp response (record_user_turn e inp (in_text inp) refined st),
        calls = [GrammarCall (in_text inp), ClassifyCall refined] @ retrieve_calls e sel refined
                @ [GenerateCall (generation_request e inp refined docs
                     (record_user_turn e inp (in_text inp) refined st))]\<rparr>"
    by (rule successful_run)
  with assms have "out = or_else (response_text response) ''No response generated.''"
    by simp
  then show ?thesis using or_else_fallback by simp
qed

lemma history_of_append_turn:
  "history_of (append_turn st cid m) cid = history_of st cid @ [m]"
  by (simp add: append_turn_def history_of_def)

lemma getChatHistory_append_turn:
  "getChatHistory (append_turn st cid (turn r t)) cid = getChatHistory st cid @ [(r, t)]"
  by (simp add: getChatHistory_def history_of_append_turn turn_def)

lemma generated_request:
  assumes "calls R = [GrammarCall p, ClassifyCall refined] @ retrieve_calls e sel refined @ [GenerateCall request]"
    and "GenerateCall req \<in> set (calls R)"
  shows "req = request"
  using assms retrieve_calls_no_generate by auto

lemma retrieval_query:
  assumes "calls R = [GrammarCall p, ClassifyCall refined] @ retrieve_calls e sel refined @ [GenerateCall request]"
    and "RetrieveCall r q opts \<in> set (calls R)"
  shows "q = refined"
  using assms retrieve_calls_query by auto

lemma flow_fallback:
  assumes "result (autonomousAIFlow e inp st) = Inr out"
    and "GenerateCall request \<in> set (calls (autonomousAIFlow e inp st))"
    and "generate_model e request = Inr response"
    and "\<not> truthy (response_text response)"
  shows "out = ''No response generated.''"
proof -
  from assms(1) obtain refined sel docs response' where
    gen: "generate_model e (generation_request e inp refined docs
        (record_user_turn e inp (in_text inp) refined st)) = Inr response'"
    and run: "autonomousAIFlow e inp st =
       \<lparr>result = Inr (or_else (response_text response') ''No response generated.''),
        final = record_model_turn inp response' (record_user_turn e inp (in_text inp) refined st),
        calls = [GrammarCall (in_text inp), ClassifyCall refined] @ retrieve_calls e sel refined
                @ [GenerateCall (generation_request e inp refined docs
                     (record_user_turn e inp (in_text inp) refined st))]\<rparr>"
    by (rule successful_run)
  have "calls (autonomousAIFlow e inp st) =
          [GrammarCall (in_text inp), ClassifyCall refined] @ retrieve_calls e sel refined
          @ [GenerateCall (generation_request e inp refined docs
               (record_user_turn e inp (in_text inp) refined st))]"
    by (simp add: run)
  from generated_request [OF this assms(2)] gen assms(3) have "response' = response" by simp
  then show ?thesis using assms(1,4) by (simp add: run or_else_falsy)
qed

lemmas flow_defs =
  autonomousAIFlow_def call_defs split_def correctGrammar_def getDocumentRetriever_def detectDocumentType_def
  retrieve_selected_def retrieve_calls_def record_user_turn_def record_model_turn_def
  authenticated_def append_turn_def history_of_def generation_request_def Let_def

lemma documentTypeOf_criminal_lit: "documentTypeOf (Some ''criminal'') = ''criminal''"
  by code_simp

text \<open>
  C8. The flows that answer with \<^verbatim>\<open>response.text || "No response generated."\<close>
  give the fallback string for an empty generation text and never an empty
  string (\<open>flow_fallback\<close>, \<open>flow_never_empty\<close>). The first flow of
  \<^verbatim>\<open>src/index.ts\<close> answers with \<^verbatim>\<open>response.message?.content || ...\<close>
  instead; the content is an array, which is truthy also when it is empty, so an
  empty generation comes back as the empty array of parts and not as the
  fallback string.
\<close>

theorem first_flow_empty_content:
  "autonomousAIFlow_first
     (example_env (Inr None) (Inr None) scenario_rows
        (Inr \<lparr>response_text = Some [], response_message_content = Some []\<rparr>))
     ''What is theft?'' = Inr (Parts [])"
  by (simp add: autonomousAIFlow_first_def example_env_def ai_retrieve_def valid_options_def
        first_flow_options_def vectorDb_handler_def)

text \<open>
  C9. On a request without user identifier whose generation call answers with
  an empty text, the caller gets the fallback string, while the history that
  \<^verbatim>\<open>getChatHistory\<close> reports for the conversation is the former one followed
  by the user turn and a model turn whose content is the empty string.
\<close>

theorem empty_answer_kept_in_history:
  assumes "\<not> authenticated inp"
    and "result (autonomousAIFlow e inp st) = Inr out"
    and "GenerateCall request \<in> set (calls (autonomousAIFlow e inp st))"
    and "generate_model e request = Inr response"
    and "\<not> truthy (response_text response)"
  shows "out = ''No response generated.''
       \<and> getChatHistory (final (autonomousAIFlow e inp st)) (chatroomId inp)
           = getChatHistory st (chatroomId inp) @ [(User, in_text inp), (Model, [])]"
proof -
  from assms(2) obtain refined sel docs response' where
    gen: "generate_model e (generation_request e inp refined docs
        (record_user_turn e inp (in_text inp) refined st)) = Inr response'"
    and run: "autonomousAIFlow e inp st =
       \<lparr>result = Inr (or_else (response_text response') ''No response generated.''),
        final = record_model_turn inp response' (record_user_turn e inp (in_text inp) refined st),
        calls = [GrammarCall (in_text inp), ClassifyCall refined] @ retrieve_calls e sel refined
                @ [GenerateCall (generation_request e inp refined docs
                     (record_user_turn e inp (in_text inp) refined st))]\<rparr>"
    by (rule successful_run)
  from assms(3) have "request = generation_request e inp refined docs
                     (record_user_turn e inp (in_text inp) refined st)"
    using retrieve_calls_no_generate by (auto simp: run)
  with gen assms(4) have r: "response' = response" by simp
  have out: "out = ''No response generated.''"
    using assms(2,5) by (simp add: run r or_else_falsy)
  have "final (autonomousAIFlow e inp st)
          = append_turn (append_turn st (chatroomId inp) (turn User (in_text inp)))
              (chatroomId inp) (turn Model [])"
    using assms(1,5) by (simp add: run r record_model_turn_def record_user_turn_def or_else_falsy)
  then show ?thesis using out by (simp add: getChatHistory_append_turn)
qed

theorem empty_answer_kept_in_history_witness:
  "result (autonomousAIFlow
      (example_env (Inr None) (Inr (Some ''none'')) []
         (Inr \<lparr>response_text = Some [], response_message_content = Some []\<rparr>))
      guest_input empty_state) = Inr ''No response generated.''
   \<and> getChatHistory (final (autonomousAIFlow
      (example_env (Inr None) (Inr (Some ''none'')) []
         (Inr \<lparr>response_text = Some [], response_message_content = Some []\<rparr>))
      guest_input empty_state)) ''c1'' = [(User, ''wat is theft''), (Model, [])]"
proof -
  let ?resp = "\<lparr>response_text = Some [], response_message_content = Some []\<rparr>"
  let ?e = "example_env (Inr None) (Inr (Some ''none'')) [] (Inr ?resp)"
  let ?run = "autonomousAIFlow ?e guest_input empty_state"
  let ?req = "generation_request ?e guest_input ''wat is theft'' []
                  (record_user_turn ?e guest_input ''wat is theft'' ''wat is theft'' empty_state)"
  have a: "\<not> authenticated guest_input"
    by (simp add: authenticated_def guest_input_def)
  have run: "?run = \<lparr>result = Inr ''No response generated.'',
       final = record_model_turn guest_input ?resp
                 (record_user_turn ?e guest_input ''wat is theft'' ''wat is theft'' empty_state),
       calls = [GrammarCall ''wat is theft'', ClassifyCall ''wat is theft'', GenerateCall ?req]\<rparr>"
    by (simp add: autonomousAIFlow_def call_defs split_def correctGrammar_def getDocumentRetriever_def
        detectDocumentType_def example_env_def guest_input_def Let_def
        retrieve_selected_def retrieve_calls_def documentTypeOf_none_lit)
  have r: "result ?run = Inr ''No response generated.''" by (simp add: run)
  have c: "GenerateCall ?req \<in> set (calls ?run)" by (simp add: run)
  have g: "generate_model ?e ?req = Inr ?resp" by (simp add: example_env_def)
  have t: "\<not> truthy (response_text ?resp)" by simp
  have h: "getChatHistory empty_state (chatroomId guest_input) = []"
    by (simp add: getChatHistory_def history_of_def empty_state_def)
  from empty_answer_kept_in_history [OF a r c g t] r show ?thesis
    by (simp add: h) (simp add: guest_input_def)
qed

lemma run_cases:
  assumes g: "correctGrammar e (in_text inp) = Inr refined"
  obtains (early) cs where
      "final (autonomousAIFlow e inp st) = st"
      "calls (autonomousAIFlow e inp st) = [GrammarCall (in_text inp), ClassifyCall refined] @ cs"
      "\<And>req. GenerateCall req \<notin> set cs"
      "\<And>r q opts. RetrieveCall r q opts \<in> set cs \<Longrightarrow> q = refined"
  | (generated) sel docs where
      "getDocumentRetriever e refined = Inr sel"
      "retrieve_selected e sel refined = Inr docs"
      "calls (autonomousAIFlow e inp st) =
         [GrammarCall (in_text inp), ClassifyCall refined] @ retrieve_calls e sel refined @
         [GenerateCall (generation_request e inp refined docs
            (record_user_turn e inp (in_text inp) refined st))]"
      "final (autonomousAIFlow e inp st) = record_user_turn e inp (in_text inp) refined st
       \<or> (\<exists>response. final (autonomousAIFlow e inp st) =
             record_model_turn inp response (record_user_turn e inp (in_text inp) refined st))"
proof (cases "getDocumentRetriever e refined")
  case (Inl a)
  show ?thesis
    by (rule early [of "[]"]) (simp_all add: flow_classify_fails [OF g Inl])
next
  case s: (Inr sel)
  show ?thesis
  proof (cases "retrieve_selected e sel refined")
    case (Inl a)
    show ?thesis
    proof (rule early [of "retrieve_calls e sel refined"])
      show "\<And>r q opts. RetrieveCall r q opts \<in> set (retrieve_calls e sel refined) \<Longrightarrow> q = refined"
        by (rule retrieve_calls_query)
    qed (simp_all add: flow_retrieve_fails [OF g s Inl] retrieve_calls_no_generate)
  next
    case d: (Inr docs)
    let ?st1 = "record_user_turn e inp (in_text inp) refined st"
    let ?req = "generation_request e inp refined docs ?st1"
    show ?thesis
    proof (cases "generate_model e ?req")
      case (Inl a)
      show ?thesis
        by (rule generated [of sel docs])
           (simp_all add: s d flow_generate_fails [OF g s d refl refl Inl])
    next
      case (Inr response)
      show ?thesis
        by (rule generated [of sel docs])
           (auto simp: s d flow_success [OF g s d refl refl Inr])
    qed
  qed
qed

lemma addMessage_messages:
  assumes "addMessage d cid uid t who = Inr d'"
  shows "messages d' = messages d @ [\<lparr>message_chat_id = cid, sender = who, message_content = t\<rparr>]"
  using assms by (auto simp: addMessage_def split: sum.splits option.splits)

lemma createChat_messages:
  assumes "createChat e d uid title = Inr (c, d')"
  shows "messages d' = messages d"
  using assms by (auto simp: createChat_def Let_def split: if_splits)

lemma save_user_message_messages:
  "messages (save_user_message e inp (in_text inp) refined d) = messages d
   \<or> messages (save_user_message e inp (in_text inp) refined d) = messages d @ [user_message inp]"
  by (auto simp: save_user_message_def Let_def user_message_def
      split: sum.splits option.splits dest!: addMessage_messages createChat_messages)

lemma record_user_turn_messages:
  "messages (db (record_user_turn e inp (in_text inp) refined st)) = messages (db st)
   \<or> messages (db (record_user_turn e inp (in_text inp) refined st))
       = messages (db st) @ [user_message inp]"
  using save_user_message_messages [of e inp refined "db st"]
  by (simp add: record_user_turn_def append_turn_def)

lemma record_model_turn_messages:
  "messages (db (record_model_turn inp response st)) = messages (db st)
   \<or> (\<exists>m. sender m = Model \<and> messages (db (record_model_turn inp response st)) = messages (db st) @ [m])"
  by (auto simp: record_model_turn_def append_turn_def split: sum.splits dest!: addMessage_messages)

lemma save_user_message_existing:
  assumes "getChatById d (chatroomId inp) (the (userId inp)) = Inr (Some c)"
  shows "messages (save_user_message e inp (in_text inp) refined d) = messages d @ [user_message inp]"
  using assms by (simp add: save_user_message_def Let_def addMessage_def user_message_def)

lemma record_user_turn_guest:
  assumes "\<not> authenticated inp"
  shows "history_of (record_user_turn e inp (in_text inp) refined st) (chatroomId inp)
           = history_of st (chatroomId inp) @ [turn User (in_text inp)]"
  using assms by (simp add: record_user_turn_def history_of_append_turn)

lemma record_model_turn_guest:
  assumes "\<not> authenticated inp"
  shows "\<exists>m. history_of (record_model_turn inp response st) (chatroomId inp)
           = history_of st (chatroomId inp) @ [m]"
  using assms by (simp add: record_model_turn_def history_of_append_turn)

text \<open>
  C10. Once the grammar pass has answered with the corrected text: every
  retrieval call and every generation call of the request carries the corrected
  text as its query or prompt, so the prompt differs from the input text whenever
  the correction changed it, and the documents of the generation request are what
  the retriever selected for the corrected text answered for the corrected text;
  the user turn appended to the in-memory history of
  a request without user identifier holds the input text as received; every
  message row the request adds with sender \<open>user\<close> holds the input text as
  received, and such a row is added when the request is authenticated and the
  chat exists for that user.
\<close>

theorem stored_turn_original_prompt_corrected:
  assumes g: "correctGrammar e (in_text inp) = Inr refined"
  shows "(\<forall>r q opts. RetrieveCall r q opts \<in> set (calls (autonomousAIFlow e inp st)) \<longrightarrow> q = refined)
    \<and> (\<forall>req. GenerateCall req \<in> set (calls (autonomousAIFlow e inp st)) \<longrightarrow>
          gr_prompt req = refined \<and> (refined \<noteq> in_text inp \<longrightarrow> gr_prompt req \<noteq> in_text inp))
    \<and> (\<forall>req. GenerateCall req \<in> set (calls (autonomousAIFlow e inp st)) \<longrightarrow> \<not> authenticated inp \<longrightarrow>
          (\<exists>later. history_of (final (autonomousAIFlow e inp st)) (chatroomId inp)
                     = history_of st (chatroomId inp) @ turn User (in_text inp) # later))
    \<and> (\<exists>new. messages (db (final (autonomousAIFlow e inp st))) = messages (db st) @ new
          \<and> (\<forall>m\<in>set new. sender m = User \<longrightarrow> m = user_message inp))
    \<and> (\<forall>req c. GenerateCall req \<in> set (calls (autonomousAIFlow e inp st)) \<longrightarrow> authenticated inp \<longrightarrow>
          getChatById (db st) (chatroomId inp) (the (userId inp)) = Inr (Some c) \<longrightarrow>
          user_message inp \<in> set (messages (db (final (autonomousAIFlow e inp st)))))
    \<and> (\<forall>req. GenerateCall req \<in> set (calls (autonomousAIFlow e inp st)) \<longrightarrow>
          (\<exists>sel. getDocumentRetriever e refined = Inr sel \<and>
             (case sel of
                None \<Rightarrow> gr_docs req = []
              | Some r \<Rightarrow> ai_retrieve e r refined flow_options = Inr (gr_docs req))))"
    (is "?A \<and> ?B \<and> ?C \<and> ?D \<and> ?E \<and> ?F")
proof -
  let ?R = "autonomousAIFlow e inp st"
  let ?st1 = "record_user_turn e inp (in_text inp) refined st"
  from g show ?thesis
  proof (cases rule: run_cases [where st = st])
    case (early cs)
    have nogen: "GenerateCall req \<notin> set (calls ?R)" for req
      using early(2,3) by simp
    have ?A using early(2,4) by auto
    moreover have ?B using nogen by simp
    moreover have ?C using nogen by simp
    moreover have ?D using early(1) by simp
    moreover have ?E using nogen by simp
    moreover have ?F using nogen by simp
    ultimately show ?thesis by blast
  next
    case (generated sel docs)
    have a: ?A using retrieval_query [OF generated(3)] by blast
    have "gr_prompt req = refined" if "GenerateCall req \<in> set (calls ?R)" for req
      using generated_request [OF generated(3) that] by (simp add: generation_request_def)
    then have b: ?B by simp
    have c: ?C
    proof (intro allI impI)
      fix req assume "\<not> authenticated inp"
      then have u: "history_of ?st1 (chatroomId inp)
                      = history_of st (chatroomId inp) @ [turn User (in_text inp)]"
        by (rule record_user_turn_guest)
      from generated(4) show "\<exists>later. history_of (final ?R) (chatroomId inp)
                     = history_of st (chatroomId inp) @ turn User (in_text inp) # later"
      proof
        assume "final ?R = ?st1"
        with u show ?thesis by simp
      next
        assume "\<exists>response. final ?R = record_model_turn inp response ?st1"
        then obtain response where f: "final ?R = record_model_turn inp response ?st1" by blast
        from \<open>\<not> authenticated inp\<close> obtain m where
          "history_of (record_model_turn inp response ?st1) (chatroomId inp)
             = history_of ?st1 (chatroomId inp) @ [m]"
          using record_model_turn_guest by blast
        with u f show ?thesis by simp
      qed
    qed
    have u: "\<exists>new. messages (db ?st1) = messages (db st) @ new \<and> set new \<subseteq> {user_message inp}"
      using record_user_turn_messages [of e inp refined st] by auto
    have d: ?D
    proof -
      from u obtain new where n: "messages (db ?st1) = messages (db st) @ new"
        "set new \<subseteq> {user_message inp}" by blast
      from generated(4) show ?thesis
      proof
        assume "final ?R = ?st1"
        with n show ?thesis by auto
      next
        assume "\<exists>response. final ?R = record_model_turn inp response ?st1"
        then obtain response where f: "final ?R = record_model_turn inp response ?st1" by blast
        from record_model_turn_messages [of inp response ?st1]
        obtain new' where "messages (db (final ?R)) = messages (db ?st1) @ new'"
          "\<forall>m\<in>set new'. sender m = Model"
          unfolding f by force
        with n have "messages (db (final ?R)) = messages (db st) @ (new @ new')"
          "\<forall>m\<in>set (new @ new'). sender m = User \<longrightarrow> m = user_message inp" by auto
        then show ?thesis by blast
      qed
    qed
    have e: ?E
    proof (intro allI impI)
      fix req c
      assume au: "authenticated inp"
        and ch: "getChatById (db st) (chatroomId inp) (the (userId inp)) = Inr (Some c)"
      have "messages (db ?st1) = messages (db st) @ [user_message inp]"
        using au save_user_message_existing [OF ch] by (simp add: record_user_turn_def)
      then have in1: "user_message inp \<in> set (messages (db ?st1))" by simp
      from generated(4) show "user_message inp \<in> set (messages (db (final ?R)))"
      proof
        assume "final ?R = ?st1"
        with in1 show ?thesis by simp
      next
        assume "\<exists>response. final ?R = record_model_turn inp response ?st1"
        then obtain response where f: "final ?R = record_model_turn inp response ?st1" by blast
        from record_model_turn_messages [of inp response ?st1] in1
        show ?thesis unfolding f by auto
      qed
    qed
    have f: ?F
    proof (intro allI impI)
      fix req assume "GenerateCall req \<in> set (calls ?R)"
      from generated_request [OF generated(3) this]
      have docs: "gr_docs req = docs" by (simp add: generation_request_def)
      have "case sel of
              None \<Rightarrow> gr_docs req = []
            | Some r \<Rightarrow> ai_retrieve e r refined flow_options = Inr (gr_docs req)"
      proof (cases sel)
        case None
        with generated(2) docs show ?thesis
          by (simp add: retrieve_selected_def call_retriever_def)
      next
        case (Some r)
        with generated(2) docs show ?thesis by (simp add: retrieve_selected_Some)
      qed
      with generated(1)
      show "\<exists>sel. getDocumentRetriever e refined = Inr sel \<and>
             (case sel of
                None \<Rightarrow> gr_docs req = []
              | Some r \<Rightarrow> ai_retrieve e r refined flow_options = Inr (gr_docs req))"
        by blast
    qed
    from a b c d e f show ?thesis by blast
  qed
qed

theorem stored_turn_original_prompt_corrected_witness:
  "autonomousAIFlow correcting_env member_input member_state =
     \<lparr>result = Inr ''Theft is an offence.'',
      final = member_state\<lparr>db := (db member_state)\<lparr>messages :=
        [\<lparr>message_chat_id = ''c1'', sender = User, message_content = ''wat is theft''\<rparr>,
         \<lparr>message_chat_id = ''c1'', sender = Model,
           message_content = ''Theft is an offence.''\<rparr>]\<rparr>\<rparr>,
      calls =
        [GrammarCall ''wat is theft'', ClassifyCall ''What is theft?'',
         RetrieveCall criminalCodeRetriever ''What is theft?'' flow_options,
         GenerateCall \<lparr>gr_system = ''You are Kanoon Sathi'', gr_prompt = ''What is theft?'',
            gr_docs = [code_document (example_row 0.91)], gr_messages = []\<rparr>]\<rparr>
   \<and> ai_retrieve correcting_env criminalCodeRetriever ''What is theft?'' flow_options
       = Inr [code_document (example_row 0.91)]
   \<and> ai_retrieve correcting_env criminalCodeRetriever ''wat is theft'' flow_options = Inr []
   \<and> user_message member_input \<in>
       set (messages (db (final (autonomousAIFlow correcting_env member_input member_state))))
   \<and> history_of (final (autonomousAIFlow correcting_env guest_input empty_state)) ''c1'' =
     [turn User ''wat is theft'', turn Model ''Theft is an offence.'']"
proof -
  let ?R = "autonomousAIFlow correcting_env member_input member_state"
  let ?req = "\<lparr>gr_system = ''You are Kanoon Sathi'', gr_prompt = ''What is theft?'',
         gr_docs = [code_document (example_row 0.91)], gr_messages = []\<rparr>"
  have g: "correctGrammar correcting_env (in_text member_input) = Inr ''What is theft?''"
    by (simp add: correctGrammar_def correcting_env_def member_input_def)
  have run: "?R =
     \<lparr>result = Inr ''Theft is an offence.'',
      final = member_state\<lparr>db := (db member_state)\<lparr>messages :=
        [\<lparr>message_chat_id = ''c1'', sender = User, message_content = ''wat is theft''\<rparr>,
         \<lparr>message_chat_id = ''c1'', sender = Model,
           message_content = ''Theft is an offence.''\<rparr>]\<rparr>\<rparr>,
      calls =
        [GrammarCall ''wat is theft'', ClassifyCall ''What is theft?'',
         RetrieveCall criminalCodeRetriever ''What is theft?'' flow_options, GenerateCall ?req]\<rparr>"
    by (simp add: flow_defs call_defs split_def correcting_env_def member_input_def
        member_state_def documentTypeOf_criminal_lit documentTypeOf_none_lit handler_defs
        limit_of_def flow_options_def save_user_message_def addMessage_def getChatById_def
        answer_def)
  have hs: "history_of (final (autonomousAIFlow correcting_env guest_input empty_state)) ''c1'' =
     [turn User ''wat is theft'', turn Model ''Theft is an offence.'']"
    by (simp add: flow_defs call_defs split_def correcting_env_def guest_input_def
        empty_state_def documentTypeOf_criminal_lit documentTypeOf_none_lit handler_defs
        limit_of_def flow_options_def answer_def)
  have wrong: "ai_retrieve correcting_env criminalCodeRetriever ''wat is theft'' flow_options
                 = Inr []"
    by (simp add: correcting_env_def handler_defs limit_of_def flow_options_def)
  have sel: "getDocumentRetriever correcting_env ''What is theft?'' = Inr (Some criminalCodeRetriever)"
    by (simp add: getDocumentRetriever_def detectDocumentType_def correcting_env_def
        documentTypeOf_criminal_lit)
  have gen: "GenerateCall ?req \<in> set (calls ?R)" by (simp add: run)
  have au: "authenticated member_input" by (simp add: authenticated_def member_input_def)
  have ch: "getChatById (db member_state) (chatroomId member_input) (the (userId member_input))
              = Inr (Some \<lparr>chat_id = ''c1'', chat_user_id = ''u1'', chat_title = None\<rparr>)"
    by (simp add: getChatById_def member_state_def member_input_def)
  note t = stored_turn_original_prompt_corrected [OF g, of member_state]
  from t gen au ch
  have um: "user_message member_input \<in> set (messages (db (final ?R)))" by blast
  from t gen obtain s where "getDocumentRetriever correcting_env ''What is theft?'' = Inr s"
    and "case s of None \<Rightarrow> gr_docs ?req = []
         | Some r \<Rightarrow> ai_retrieve correcting_env r ''What is theft?'' flow_options
                      = Inr (gr_docs ?req)"
    by blast
  with sel have right: "ai_retrieve correcting_env criminalCodeRetriever ''What is theft?''
      flow_options = Inr [code_document (example_row 0.91)]"
    by simp
  from run hs wrong right um show ?thesis by simp
qed

end
